theory Spec2Isabelle
  imports Complex_Main "HOL-Library.Sublist" "HOL-Library.Log_Nat"
begin

section \<open>Python values as the loaders receive them\<close>

text \<open>
  The four input files are JSON arrays read with \<^verbatim>\<open>ijson.items(f, "item")\<close>, which
  produces one Python object per array element: \<^verbatim>\<open>None\<close>, \<^verbatim>\<open>bool\<close>, \<^verbatim>\<open>int\<close>
  (unbounded, for integer literals), \<^verbatim>\<open>decimal.Decimal\<close> (for the other number
  literals), \<^verbatim>\<open>str\<close>, \<^verbatim>\<open>list\<close> and \<^verbatim>\<open>dict\<close> with string keys. A decoded
  dict is given by the list of its items; lookups go through \<open>map_of\<close>.
\<close>

datatype pyval =
    PNone
  | PBool bool
  | PInt int
  | PDec rat
  | PStr string
  | PList "pyval list"
  | PDict "(string \<times> pyval) list"

text \<open>
  A Python \<^verbatim>\<open>float\<close>, an IEEE 754 double. A finite double is represented by the
  rational number it denotes; the infinities and NaN are values of their own. The two
  zeros are one value, \<open>Fin 0\<close>: they compare equal, and a running total never holds
  \<^verbatim>\<open>-0.0\<close>, since it starts at \<^verbatim>\<open>0.0\<close> and \<^verbatim>\<open>0.0 + -0.0\<close> is \<^verbatim>\<open>0.0\<close>.
\<close>

datatype pyfloat = Fin rat | PInf | NInf | NaN

text \<open>
  Rounding a rational number to the nearest double, ties to the even mantissa, as
  \<^verbatim>\<open>float()\<close> and \<^verbatim>\<open>+\<close> do. \<open>floor_log2 a\<close> is the integer part of the binary
  logarithm of a positive \<open>a\<close>, from the bit lengths of its numerator and
  denominator. The last place of the result has the exponent \<open>floor_log2 a - 52\<close>
  (53 significant bits), but not less than \<open>-1074\<close> (the subnormal range); a result of
  \<open>2 ^ 1024\<close> or more is an infinity.
\<close>

definition floor_log2 :: "rat \<Rightarrow> int" where
  "floor_log2 a =
     (let (p, q) = quotient_of a; k = bitlen p - bitlen q
      in if 2 powi k \<le> a then k else k - 1)"

definition round_half_even :: "rat \<Rightarrow> int" where
  "round_half_even x =
     (let f = \<lfloor>x\<rfloor>; d = x - of_int f
      in if d < 1 / 2 then f
         else if 1 / 2 < d then f + 1
         else if even f then f else f + 1)"

definition round_double :: "rat \<Rightarrow> pyfloat" where
  "round_double r =
     (if r = 0 then Fin 0
      else
        let e = max (floor_log2 \<bar>r\<bar> - 52) (- 1074);
            v = of_int (round_half_even (\<bar>r\<bar> / 2 powi e)) * 2 powi e
        in if 2 ^ 1024 \<le> v then (if 0 < r then PInf else NInf) else Fin (sgn r * v))"

text \<open>The exceptions that the code under study can raise, and the one it defines.\<close>

datatype stage = Category | Product | Contact | Sales

datatype exn =
    AttributeError
  | TypeError
  | ValueError
  | KeyError
  | OverflowError
  | OSError
  | JSONError
  | DataLoaderException stage exn

datatype 'a result = Ok 'a | Raise exn

text \<open>Truth value of an object, as \<^verbatim>\<open>if x:\<close> and \<^verbatim>\<open>not x\<close> test it.\<close>

fun truthy :: "pyval \<Rightarrow> bool" where
  "truthy PNone = False"
| "truthy (PBool b) = b"
| "truthy (PInt i) = (i \<noteq> 0)"
| "truthy (PDec r) = (r \<noteq> 0)"
| "truthy (PStr s) = (s \<noteq> [])"
| "truthy (PList xs) = (xs \<noteq> [])"
| "truthy (PDict kvs) = (kvs \<noteq> [])"

text \<open>
  Dictionary keys. Python hashes and compares \<^verbatim>\<open>True\<close>, \<^verbatim>\<open>1\<close> and
  \<^verbatim>\<open>Decimal('1')\<close> as one key, so numbers are keyed by their value; lists and
  dicts are unhashable and using one as a key raises \<^verbatim>\<open>TypeError\<close>.
\<close>

datatype key = KNone | KNum rat | KStr string

fun hash_key :: "pyval \<Rightarrow> key result" where
  "hash_key PNone = Ok KNone"
| "hash_key (PBool b) = Ok (KNum (if b then 1 else 0))"
| "hash_key (PInt i) = Ok (KNum (of_int i))"
| "hash_key (PDec r) = Ok (KNum r)"
| "hash_key (PStr s) = Ok (KStr s)"
| "hash_key (PList xs) = Raise TypeError"
| "hash_key (PDict kvs) = Raise TypeError"

text \<open>\<^verbatim>\<open>d.get(k, default)\<close> and \<^verbatim>\<open>d[k]\<close> on a decoded JSON object.\<close>

definition dict_get :: "(string \<times> pyval) list \<Rightarrow> string \<Rightarrow> pyval \<Rightarrow> pyval" where
  "dict_get kvs k d = (case map_of kvs k of None \<Rightarrow> d | Some v \<Rightarrow> v)"

definition dict_item :: "(string \<times> pyval) list \<Rightarrow> string \<Rightarrow> pyval result" where
  "dict_item kvs k = (case map_of kvs k of None \<Rightarrow> Raise KeyError | Some v \<Rightarrow> Ok v)"

text \<open>
  \<^verbatim>\<open>a == b\<close> on decoded JSON values: numbers compare by value across \<^verbatim>\<open>bool\<close>,
  \<^verbatim>\<open>int\<close> and \<^verbatim>\<open>Decimal\<close>, lists elementwise, dicts as mappings (the items
  of a dict have distinct keys).
\<close>

fun py_num :: "pyval \<Rightarrow> rat option" where
  "py_num (PBool b) = Some (if b then 1 else 0)"
| "py_num (PInt i) = Some (of_int i)"
| "py_num (PDec r) = Some r"
| "py_num v = None"

fun py_eq :: "pyval \<Rightarrow> pyval \<Rightarrow> bool" where
  "py_eq PNone w = (w = PNone)"
| "py_eq (PStr s) w = (w = PStr s)"
| "py_eq (PBool b) w = (py_num w = Some (if b then 1 else 0))"
| "py_eq (PInt i) w = (py_num w = Some (of_int i))"
| "py_eq (PDec r) w = (py_num w = Some r)"
| "py_eq (PList xs) w = (case w of PList ys \<Rightarrow> list_all2 py_eq xs ys | _ \<Rightarrow> False)"
| "py_eq (PDict a) w =
     (case w of
        PDict b \<Rightarrow>
          length a = length b \<and>
          list_all (\<lambda>(k, v). list_ex (\<lambda>(k', v'). k = k' \<and> py_eq v v') b) a
      | _ \<Rightarrow> False)"


section \<open>Field extractors (utils/data\_utils.py)\<close>

text \<open>
  \<^verbatim>\<open>extract_id(id_field)\<close>: the first element of a non-empty list, \<^verbatim>\<open>None\<close>
  otherwise. The argument comes from \<^verbatim>\<open>sale.get(...)\<close>, so a missing field
  arrives as \<^verbatim>\<open>None\<close>.
\<close>

definition extract_id :: "pyval \<Rightarrow> pyval" where
  "extract_id id_field =
     (case id_field of
        PList xs \<Rightarrow> (if length xs > 0 then hd xs else PNone)
      | _ \<Rightarrow> PNone)"

text \<open>
  The builtin \<^verbatim>\<open>float(value)\<close>: the nearest double to an \<^verbatim>\<open>int\<close> or a
  \<^verbatim>\<open>Decimal\<close>. Converting an \<^verbatim>\<open>int\<close> raises \<^verbatim>\<open>OverflowError\<close> when the
  integer rounds beyond the largest double; a \<^verbatim>\<open>Decimal\<close> of that size converts
  to an infinity instead.
  \<^verbatim>\<open>None\<close>, lists and dicts raise \<^verbatim>\<open>TypeError\<close>. How Python reads a
  \<^verbatim>\<open>str\<close> as a float is taken as the parameter \<open>sf\<close>: \<open>sf s = None\<close> when
  \<^verbatim>\<open>float(s)\<close> raises \<^verbatim>\<open>ValueError\<close>.
\<close>

definition dbl_overflow :: int where
  "dbl_overflow = 2 ^ 1024 - 2 ^ 970"

fun py_float :: "(string \<Rightarrow> pyfloat option) \<Rightarrow> pyval \<Rightarrow> pyfloat result" where
  "py_float sf PNone = Raise TypeError"
| "py_float sf (PBool b) = Ok (Fin (if b then 1 else 0))"
| "py_float sf (PInt i) =
     (if \<bar>i\<bar> < dbl_overflow then Ok (round_double (of_int i)) else Raise OverflowError)"
| "py_float sf (PDec r) =
     Ok (if of_int dbl_overflow \<le> r then PInf
         else if r \<le> - of_int dbl_overflow then NInf
         else round_double r)"
| "py_float sf (PStr s) = (case sf s of None \<Rightarrow> Raise ValueError | Some f \<Rightarrow> Ok f)"
| "py_float sf (PList xs) = Raise TypeError"
| "py_float sf (PDict kvs) = Raise TypeError"

text \<open>
  \<^verbatim>\<open>max(x, 0.0)\<close>: the builtin keeps its first argument unless the second is
  greater, so a NaN stays a NaN.
\<close>

fun max_zero :: "pyfloat \<Rightarrow> pyfloat" where
  "max_zero (Fin r) = (if 0 > r then Fin 0 else Fin r)"
| "max_zero PInf = PInf"
| "max_zero NInf = Fin 0"
| "max_zero NaN = NaN"

text \<open>
  Addition of floats, \<^verbatim>\<open>x + y\<close>: the sum of two finite doubles is rounded to the
  nearest double, or to an infinity.
\<close>

fun fadd :: "pyfloat \<Rightarrow> pyfloat \<Rightarrow> pyfloat" where
  "fadd (Fin a) (Fin b) = round_double (a + b)"
| "fadd NaN y = NaN"
| "fadd x NaN = NaN"
| "fadd PInf NInf = NaN"
| "fadd NInf PInf = NaN"
| "fadd PInf y = PInf"
| "fadd x PInf = PInf"
| "fadd NInf y = NInf"
| "fadd x NInf = NInf"

text \<open>What \<^verbatim>\<open>current_app.logger\<close> receives, by kind of message.\<close>

datatype log_entry =
    StartingInit
  | Loaded stage
  | LoadError stage exn
  | FailedToLoad string exn
  | DataSummary
  | InvalidNumeric pyval
  | CountryCodeConflict pyval pyval pyval

text \<open>
  \<^verbatim>\<open>validate_numeric(value, default=0.0)\<close>, with the log it appends its warning
  to. Only \<^verbatim>\<open>TypeError\<close> and \<^verbatim>\<open>ValueError\<close> are caught.
\<close>

definition validate_numeric ::
  "(string \<Rightarrow> pyfloat option) \<Rightarrow> pyval \<Rightarrow> pyfloat \<Rightarrow> log_entry list
     \<Rightarrow> pyfloat result \<times> log_entry list" where
  "validate_numeric sf v dflt lg =
     (case py_float sf v of
        Ok f \<Rightarrow> (Ok (max_zero f), lg)
      | Raise e \<Rightarrow>
          (if e = TypeError \<or> e = ValueError
           then (Ok dflt, lg @ [InvalidNumeric v])
           else (Raise e, lg)))"

section \<open>The aggregation store (services/data\_loader.py, class DataLoader)\<close>

datatype index_entry = IndexEntry (entry_name: pyval) (entry_parent: "string option")

datatype category_ref = CategoryRef (ref_id: pyval) (ref_name: pyval)

datatype country_ref = CountryRef (ref_code: pyval) (country_name: pyval)

record data_loader =
  categories :: "key \<rightharpoonup> pyval"
  products :: "key \<rightharpoonup> pyval"
  contacts :: "key \<rightharpoonup> pyval"
  category_index :: "key \<rightharpoonup> index_entry"
  product_category_map :: "key \<rightharpoonup> category_ref"
  category_sales :: "key \<rightharpoonup> pyfloat"
  category_product_sales :: "key \<rightharpoonup> (key \<rightharpoonup> pyfloat)"
  country_product_sales :: "key \<rightharpoonup> (key \<rightharpoonup> pyfloat)"
  client_products :: "key \<rightharpoonup> key set"
  contact_country_map :: "key \<rightharpoonup> country_ref"
  country_code_map :: "key \<rightharpoonup> pyval"
  app_log :: "log_entry list"

text \<open>
  \<^verbatim>\<open>DataLoader.__init__\<close>: every table empty. The field \<open>app_log\<close> is not an
  attribute of the class: it carries the application log along with the store.
\<close>

definition DataLoader_init :: data_loader where
  "DataLoader_init =
     \<lparr> categories = Map.empty, products = Map.empty, contacts = Map.empty,
       category_index = Map.empty, product_category_map = Map.empty,
       category_sales = Map.empty, category_product_sales = Map.empty,
       country_product_sales = Map.empty, client_products = Map.empty,
       contact_country_map = Map.empty, country_code_map = Map.empty,
       app_log = [] \<rparr>"

text \<open>
  The \<^verbatim>\<open>defaultdict\<close> updates: \<^verbatim>\<open>m[k] += q\<close> on a \<^verbatim>\<open>defaultdict(float)\<close>,
  \<^verbatim>\<open>m[k1][k2] += q\<close> on a \<^verbatim>\<open>defaultdict\<close> of those, and \<^verbatim>\<open>m[k].add(x)\<close>
  on a \<^verbatim>\<open>defaultdict(set)\<close>.
\<close>

definition add_qty :: "(key \<rightharpoonup> pyfloat) \<Rightarrow> key \<Rightarrow> pyfloat \<Rightarrow> (key \<rightharpoonup> pyfloat)" where
  "add_qty m k q = m(k \<mapsto> fadd (case m k of None \<Rightarrow> Fin 0 | Some x \<Rightarrow> x) q)"

definition add_qty2 ::
  "(key \<rightharpoonup> (key \<rightharpoonup> pyfloat)) \<Rightarrow> key \<Rightarrow> key \<Rightarrow> pyfloat \<Rightarrow> (key \<rightharpoonup> (key \<rightharpoonup> pyfloat))" where
  "add_qty2 m k1 k2 q =
     m(k1 \<mapsto> add_qty (case m k1 of None \<Rightarrow> Map.empty | Some inner \<Rightarrow> inner) k2 q)"

definition add_member :: "(key \<rightharpoonup> key set) \<Rightarrow> key \<Rightarrow> key \<Rightarrow> (key \<rightharpoonup> key set)" where
  "add_member m k x = m(k \<mapsto> insert x (case m k of None \<Rightarrow> {} | Some s \<Rightarrow> s))"

section \<open>The load strategies (services/data\_loader.py)\<close>

text \<open>
  Every per-record transform mutates the store in place, so a transform that raises
  leaves behind what it had already written: the functions return the store in both
  cases.

  \<^verbatim>\<open>CategoryLoadStrategy._process_category\<close>. On a record that is not a dict,
  \<^verbatim>\<open>category.get\<close> raises \<^verbatim>\<open>AttributeError\<close>. The right-hand side of the second
  assignment (which reads \<^verbatim>\<open>category["name"]\<close>) is evaluated after the first
  assignment has been made.
\<close>

definition process_category :: "pyval \<Rightarrow> data_loader \<Rightarrow> unit result \<times> data_loader" where
  "process_category category dl =
     (case category of
        PDict kvs \<Rightarrow>
          let parent_info = dict_get kvs ''parent_id'' PNone;
              parent_name =
                (if (case parent_info of PBool b \<Rightarrow> b | _ \<Rightarrow> False)
                 then Some ''No Parent'' else None)
          in (case dict_item kvs ''id'' of
                Raise e \<Rightarrow> (Raise e, dl)
              | Ok cid \<Rightarrow>
                  (case hash_key cid of
                     Raise e \<Rightarrow> (Raise e, dl)
                   | Ok k \<Rightarrow>
                       let dl1 = dl\<lparr>categories := (categories dl)(k \<mapsto> category)\<rparr>
                       in (case dict_item kvs ''name'' of
                             Raise e \<Rightarrow> (Raise e, dl1)
                           | Ok nm \<Rightarrow>
                               (Ok (),
                                dl1\<lparr>category_index :=
                                      (category_index dl1)(k \<mapsto> IndexEntry nm parent_name)\<rparr>))))
      | _ \<Rightarrow> (Raise AttributeError, dl))"

text \<open>
  \<^verbatim>\<open>ProductLoadStrategy._process_product\<close>. On a record that is not a dict,
  \<^verbatim>\<open>product["id"]\<close> raises \<^verbatim>\<open>TypeError\<close>.
\<close>

definition process_product :: "pyval \<Rightarrow> data_loader \<Rightarrow> unit result \<times> data_loader" where
  "process_product product dl =
     (case product of
        PDict kvs \<Rightarrow>
          (case dict_item kvs ''id'' of
             Raise e \<Rightarrow> (Raise e, dl)
           | Ok pid \<Rightarrow>
               (case hash_key pid of
                  Raise e \<Rightarrow> (Raise e, dl)
                | Ok k \<Rightarrow>
                    let dl1 = dl\<lparr>products := (products dl)(k \<mapsto> product)\<rparr>;
                        categ_info = dict_get kvs ''categ_id'' PNone
                    in (case categ_info of
                          PList xs \<Rightarrow>
                            (Ok (),
                             dl1\<lparr>product_category_map :=
                                   (product_category_map dl1)
                                     (k \<mapsto> CategoryRef
                                        (if length xs > 0 then xs ! 0 else PNone)
                                        (if length xs > 1 then xs ! 1
                                         else PStr ''Unnamed Category''))\<rparr>)
                        | _ \<Rightarrow> (Ok (), dl1))))
      | _ \<Rightarrow> (Raise TypeError, dl))"

text \<open>
  \<^verbatim>\<open>ContactLoadStrategy._process_contact\<close>. The membership test
  \<^verbatim>\<open>country_name in data_loader.country_code_map\<close> hashes the name, after the
  contact's country has been recorded.
\<close>

definition process_contact :: "pyval \<Rightarrow> data_loader \<Rightarrow> unit result \<times> data_loader" where
  "process_contact contact dl =
     (case contact of
        PDict kvs \<Rightarrow>
          (case dict_item kvs ''id'' of
             Raise e \<Rightarrow> (Raise e, dl)
           | Ok contact_id \<Rightarrow>
               (case hash_key contact_id of
                  Raise e \<Rightarrow> (Raise e, dl)
                | Ok k \<Rightarrow>
                    let dl1 = dl\<lparr>contacts := (contacts dl)(k \<mapsto> contact)\<rparr>;
                        country_info = dict_get kvs ''country_id'' PNone
                    in (case country_info of
                          PList xs \<Rightarrow>
                            if length xs > 1 then
                              let cname = xs ! 1;
                                  ccode = xs ! 0;
                                  dl2 = dl1\<lparr>contact_country_map :=
                                          (contact_country_map dl1)(k \<mapsto> CountryRef ccode cname)\<rparr>
                              in (case hash_key cname of
                                    Raise e \<Rightarrow> (Raise e, dl2)
                                  | Ok n \<Rightarrow>
                                      (case country_code_map dl2 n of
                                         Some existing \<Rightarrow>
                                           if \<not> py_eq existing ccode
                                           then (Ok (),
                                                 dl2\<lparr>app_log := app_log dl2 @
                                                   [CountryCodeConflict cname existing ccode]\<rparr>)
                                           else (Ok (), dl2)
                                       | None \<Rightarrow>
                                           (Ok (),
                                            dl2\<lparr>country_code_map :=
                                                  (country_code_map dl2)(n \<mapsto> ccode)\<rparr>)))
                            else (Ok (), dl1)
                        | _ \<Rightarrow> (Ok (), dl1))))
      | _ \<Rightarrow> (Raise TypeError, dl))"

text \<open>
  \<^verbatim>\<open>SalesLoadStrategy._process_sale\<close>. \<^verbatim>\<open>sale.get\<close> raises
  \<^verbatim>\<open>AttributeError\<close> on a record that is not a dict, and so does
  \<^verbatim>\<open>.startswith\<close> on a \<^verbatim>\<open>create_date\<close> that is not a string. The two
  \<^verbatim>\<open>dict.get\<close> lookups hash the customer id and the product id; the three
  \<^verbatim>\<open>defaultdict\<close> updates hash the category id and the country name.
\<close>

definition process_sale ::
  "(string \<Rightarrow> pyfloat option) \<Rightarrow> pyval \<Rightarrow> data_loader \<Rightarrow> bool result \<times> data_loader" where
  "process_sale sf sale dl =
     (case sale of
        PDict kvs \<Rightarrow>
          (case dict_get kvs ''create_date'' (PStr []) of
             PStr create_date \<Rightarrow>
               if \<not> prefix ''2024'' create_date then (Ok False, dl)
               else
                 let product_id = extract_id (dict_get kvs ''product_id'' PNone);
                     customer_id = extract_id (dict_get kvs ''order_partner_id'' PNone)
                 in if \<not> truthy product_id then (Ok False, dl)
                    else
                      (case validate_numeric sf (dict_get kvs ''product_uom_qty'' (PInt 0))
                              (Fin 0) (app_log dl) of
                         (Raise e, lg) \<Rightarrow> (Raise e, dl\<lparr>app_log := lg\<rparr>)
                       | (Ok quantity, lg) \<Rightarrow>
                           let dl1 = dl\<lparr>app_log := lg\<rparr>
                           in (case hash_key customer_id of
                                 Raise e \<Rightarrow> (Raise e, dl1)
                               | Ok ck \<Rightarrow>
                                   let cname =
                                         (case contact_country_map dl1 ck of
                                            None \<Rightarrow> PStr ''Unknown''
                                          | Some country_data \<Rightarrow> country_name country_data)
                                   in (case hash_key product_id of
                                         Raise e \<Rightarrow> (Raise e, dl1)
                                       | Ok pk \<Rightarrow>
                                           let category_id =
                                                 (case product_category_map dl1 pk of
                                                    None \<Rightarrow> PNone
                                                  | Some category \<Rightarrow> ref_id category)
                                           in (case
                                                 (if truthy category_id
                                                  then (case hash_key category_id of
                                                          Raise e \<Rightarrow> Raise e
                                                        | Ok gk \<Rightarrow>
                                                            Ok (dl1\<lparr>category_sales :=
                                                                   add_qty (category_sales dl1) gk quantity,
                                                                 category_product_sales :=
                                                                   add_qty2 (category_product_sales dl1)
                                                                     gk pk quantity\<rparr>))
                                                  else Ok dl1) of
                                                 Raise e \<Rightarrow> (Raise e, dl1)
                                               | Ok dl2 \<Rightarrow>
                                                   (case hash_key cname of
                                                      Raise e \<Rightarrow> (Raise e, dl2)
                                                    | Ok nk \<Rightarrow>
                                                        let dl3 = dl2\<lparr>country_product_sales :=
                                                              add_qty2 (country_product_sales dl2)
                                                                nk pk quantity\<rparr>
                                                        in (Ok True,
                                                            if truthy customer_id
                                                            then dl3\<lparr>client_products :=
                                                                   add_member (client_products dl3) ck pk\<rparr>
                                                            else dl3))))))
           | _ \<Rightarrow> (Raise AttributeError, dl))
      | _ \<Rightarrow> (Raise AttributeError, dl))"

text \<open>
  The loop \<^verbatim>\<open>for record in ijson.items(f, "item"): step(record, data_loader)\<close>: the
  first record whose transform raises ends it. (The sales loop also counts the records
  its transform accepted, in a local variable that is never read.)
\<close>

fun for_each ::
  "(pyval \<Rightarrow> data_loader \<Rightarrow> 'a result \<times> data_loader) \<Rightarrow> pyval list \<Rightarrow> data_loader
     \<Rightarrow> unit result \<times> data_loader" where
  "for_each step [] dl = (Ok (), dl)"
| "for_each step (x # xs) dl =
     (case step x dl of
        (Raise e, dl') \<Rightarrow> (Raise e, dl')
      | (Ok r, dl') \<Rightarrow> for_each step xs dl')"

text \<open>
  An input file: either it cannot be opened, or \<^verbatim>\<open>ijson\<close> delivers a sequence of
  items from it and then either reaches the end of the array or raises on a syntax
  error.
\<close>

datatype stream_end = EndOfArray | BadSyntax

datatype json_file = Unreadable | Readable "pyval list" stream_end

record data_folder =
  categories_json :: json_file
  products_json :: json_file
  contacts_json :: json_file
  sale_order_lines_json :: json_file

text \<open>
  The \<^verbatim>\<open>except Exception\<close> clause of every \<^verbatim>\<open>load\<close>: log the error and raise
  \<^verbatim>\<open>DataLoaderException\<close> (status 500) with the stage's message and the text of
  the caught exception.
\<close>

definition stage_failed :: "stage \<Rightarrow> exn \<Rightarrow> data_loader \<Rightarrow> unit result \<times> data_loader" where
  "stage_failed st e dl =
     (Raise (DataLoaderException st e), dl\<lparr>app_log := app_log dl @ [LoadError st e]\<rparr>)"

definition CategoryLoadStrategy_load :: "json_file \<Rightarrow> data_loader \<Rightarrow> unit result \<times> data_loader" where
  "CategoryLoadStrategy_load f dl =
     (case f of
        Unreadable \<Rightarrow> stage_failed Category OSError dl
      | Readable items fin \<Rightarrow>
          (case for_each process_category items dl of
             (Raise e, dl') \<Rightarrow> stage_failed Category e dl'
           | (Ok u, dl') \<Rightarrow>
               (case fin of
                  BadSyntax \<Rightarrow> stage_failed Category JSONError dl'
                | EndOfArray \<Rightarrow> (Ok (), dl'\<lparr>app_log := app_log dl' @ [Loaded Category]\<rparr>))))"

definition ProductLoadStrategy_load :: "json_file \<Rightarrow> data_loader \<Rightarrow> unit result \<times> data_loader" where
  "ProductLoadStrategy_load f dl =
     (case f of
        Unreadable \<Rightarrow> stage_failed Product OSError dl
      | Readable items fin \<Rightarrow>
          (case for_each process_product items dl of
             (Raise e, dl') \<Rightarrow> stage_failed Product e dl'
           | (Ok u, dl') \<Rightarrow>
               (case fin of
                  BadSyntax \<Rightarrow> stage_failed Product JSONError dl'
                | EndOfArray \<Rightarrow> (Ok (), dl'\<lparr>app_log := app_log dl' @ [Loaded Product]\<rparr>))))"

definition ContactLoadStrategy_load :: "json_file \<Rightarrow> data_loader \<Rightarrow> unit result \<times> data_loader" where
  "ContactLoadStrategy_load f dl =
     (case f of
        Unreadable \<Rightarrow> stage_failed Contact OSError dl
      | Readable items fin \<Rightarrow>
          (case for_each process_contact items dl of
             (Raise e, dl') \<Rightarrow> stage_failed Contact e dl'
           | (Ok u, dl') \<Rightarrow>
               (case fin of
                  BadSyntax \<Rightarrow> stage_failed Contact JSONError dl'
                | EndOfArray \<Rightarrow> (Ok (), dl'\<lparr>app_log := app_log dl' @ [Loaded Contact]\<rparr>))))"

text \<open>The sales strategy ends with \<^verbatim>\<open>log_data_summary(data_loader)\<close>.\<close>

definition SalesLoadStrategy_load ::
  "(string \<Rightarrow> pyfloat option) \<Rightarrow> json_file \<Rightarrow> data_loader \<Rightarrow> unit result \<times> data_loader" where
  "SalesLoadStrategy_load sf f dl =
     (case f of
        Unreadable \<Rightarrow> stage_failed Sales OSError dl
      | Readable items fin \<Rightarrow>
          (case for_each (process_sale sf) items dl of
             (Raise e, dl') \<Rightarrow> stage_failed Sales e dl'
           | (Ok u, dl') \<Rightarrow>
               (case fin of
                  BadSyntax \<Rightarrow> stage_failed Sales JSONError dl'
                | EndOfArray \<Rightarrow> (Ok (), dl'\<lparr>app_log := app_log dl' @ [DataSummary]\<rparr>))))"

section \<open>The orchestrator (DataLoadFactory and DataLoader)\<close>

text \<open>
  \<^verbatim>\<open>DataLoadFactory.get_loader\<close> answers a strategy, or for an unknown data type a
  \<^verbatim>\<open>ValueError\<close> instance (returned, not raised), on which \<^verbatim>\<open>.load\<close> raises
  \<^verbatim>\<open>AttributeError\<close>.
\<close>

datatype loader =
    CategoryLoadStrategy
  | ProductLoadStrategy
  | ContactLoadStrategy
  | SalesLoadStrategy
  | ValueErrorInstance

definition get_loader :: "string \<Rightarrow> loader" where
  "get_loader data_type =
     (if data_type = ''categories'' then CategoryLoadStrategy
      else if data_type = ''products'' then ProductLoadStrategy
      else if data_type = ''contacts'' then ContactLoadStrategy
      else if data_type = ''sales'' then SalesLoadStrategy
      else ValueErrorInstance)"

definition load_data ::
  "(string \<Rightarrow> pyfloat option) \<Rightarrow> data_folder \<Rightarrow> string \<Rightarrow> data_loader
     \<Rightarrow> unit result \<times> data_loader" where
  "load_data sf folder data_type dl =
     (case get_loader data_type of
        CategoryLoadStrategy \<Rightarrow> CategoryLoadStrategy_load (categories_json folder) dl
      | ProductLoadStrategy \<Rightarrow> ProductLoadStrategy_load (products_json folder) dl
      | ContactLoadStrategy \<Rightarrow> ContactLoadStrategy_load (contacts_json folder) dl
      | SalesLoadStrategy \<Rightarrow> SalesLoadStrategy_load sf (sale_order_lines_json folder) dl
      | ValueErrorInstance \<Rightarrow> (Raise AttributeError, dl))"

text \<open>
  The loop of \<^verbatim>\<open>DataLoader.initialize_data\<close> over the data types: a
  \<^verbatim>\<open>DataLoaderException\<close> is logged and raised again, any other exception
  passes through.
\<close>

fun load_each ::
  "(string \<Rightarrow> pyfloat option) \<Rightarrow> data_folder \<Rightarrow> string list \<Rightarrow> data_loader
     \<Rightarrow> unit result \<times> data_loader" where
  "load_each sf folder [] dl = (Ok (), dl)"
| "load_each sf folder (data_type # rest) dl =
     (case load_data sf folder data_type dl of
        (Ok u, dl') \<Rightarrow> load_each sf folder rest dl'
      | (Raise e, dl') \<Rightarrow>
          (case e of
             DataLoaderException st c \<Rightarrow>
               (Raise e, dl'\<lparr>app_log := app_log dl' @ [FailedToLoad data_type e]\<rparr>)
           | _ \<Rightarrow> (Raise e, dl')))"

definition initialize_data ::
  "(string \<Rightarrow> pyfloat option) \<Rightarrow> data_folder \<Rightarrow> data_loader \<Rightarrow> unit result \<times> data_loader" where
  "initialize_data sf folder dl =
     (case load_each sf folder [''categories'', ''products'', ''contacts'', ''sales'']
             (dl\<lparr>app_log := app_log dl @ [StartingInit]\<rparr>) of
        (Ok u, dl') \<Rightarrow> (Ok (), dl'\<lparr>app_log := app_log dl' @ [DataSummary]\<rparr>)
      | (Raise e, dl') \<Rightarrow> (Raise e, dl'))"

section \<open>Observations and example inputs\<close>

text \<open>
  What \<^verbatim>\<open>m[k1][k2]\<close> reads from a nested \<^verbatim>\<open>defaultdict\<close> of floats: the stored
  total, or \<^verbatim>\<open>0.0\<close> where none is stored yet.
\<close>

definition qty_at :: "(key \<rightharpoonup> (key \<rightharpoonup> pyfloat)) \<Rightarrow> key \<Rightarrow> key \<Rightarrow> pyfloat" where
  "qty_at m k1 k2 =
     (case m k1 of
        None \<Rightarrow> Fin 0
      | Some inner \<Rightarrow> (case inner k2 of None \<Rightarrow> Fin 0 | Some x \<Rightarrow> x))"

text \<open>The total stored under \<^verbatim>\<open>m[k1][k2]\<close>, if there is one.\<close>

definition stored_at :: "(key \<rightharpoonup> (key \<rightharpoonup> pyfloat)) \<Rightarrow> key \<Rightarrow> key \<Rightarrow> pyfloat option" where
  "stored_at m k1 k2 = (case m k1 of None \<Rightarrow> None | Some inner \<Rightarrow> inner k2)"

text \<open>\<^verbatim>\<open>x >= 0.0\<close> on a float; false on a NaN.\<close>

definition nonneg :: "pyfloat \<Rightarrow> bool" where
  "nonneg f = (case f of Fin r \<Rightarrow> 0 \<le> r | PInf \<Rightarrow> True | NInf \<Rightarrow> False | NaN \<Rightarrow> False)"

text \<open>
  Adding a list of (client, product) pairs to \<^verbatim>\<open>client_products\<close>, one
  \<^verbatim>\<open>.add\<close> after the other, and membership of a pair.
\<close>

definition add_members ::
  "(key \<times> key) list \<Rightarrow> (key \<rightharpoonup> key set) \<Rightarrow> (key \<rightharpoonup> key set)" where
  "add_members ps m = fold (\<lambda>cp m'. add_member m' (fst cp) (snd cp)) ps m"

definition is_member :: "(key \<rightharpoonup> key set) \<Rightarrow> key \<Rightarrow> key \<Rightarrow> bool" where
  "is_member m c p = (case m c of None \<Rightarrow> False | Some s \<Rightarrow> p \<in> s)"

text \<open>
  The theorems below hold for every reading \<open>sf\<close> of strings as floats. The examples
  instantiate it with a table of the values of \<^verbatim>\<open>float\<close> on the three strings
  they contain; the examples never ask it about another string.
\<close>

definition example_float_of_str :: "string \<Rightarrow> pyfloat option" where
  "example_float_of_str s =
     (if s = ''3'' then Some (Fin 3)
      else if s = ''-7'' then Some (Fin (- 7))
      else if s = ''nan'' then Some NaN
      else None)"

text \<open>
  A store in which contact 5 lives in France and product 10 belongs to category 1, and
  sale lines of product 10.
\<close>

definition example_store :: data_loader where
  "example_store =
     DataLoader_init
       \<lparr> product_category_map := [KNum 10 \<mapsto> CategoryRef (PInt 1) (PStr ''Drinks'')],
         contact_country_map := [KNum 5 \<mapsto> CountryRef (PInt 2) (PStr ''France'')] \<rparr>"

definition sale_of :: "pyval \<Rightarrow> pyval \<Rightarrow> pyval \<Rightarrow> pyval \<Rightarrow> (string \<times> pyval) list" where
  "sale_of create_date product customer qty =
     [(''create_date'', create_date), (''product_id'', product),
      (''order_partner_id'', customer), (''product_uom_qty'', qty)]"

text \<open>A contact record, and a data folder with one record in each of the four files.\<close>

definition contact_of :: "pyval \<Rightarrow> pyval \<Rightarrow> (string \<times> pyval) list" where
  "contact_of contact_id country =
     [(''id'', contact_id), (''name'', PStr ''Bob''), (''country_id'', country)]"

definition example_folder :: data_folder where
  "example_folder =
     \<lparr> categories_json =
         Readable [PDict [(''id'', PInt 1), (''name'', PStr ''Drinks''),
                          (''parent_id'', PBool True)]] EndOfArray,
       products_json =
         Readable [PDict [(''id'', PInt 10), (''name'', PStr ''Cola''),
                          (''categ_id'', PList [PInt 1, PStr ''Drinks''])]] EndOfArray,
       contacts_json =
         Readable [PDict (contact_of (PInt 5) (PList [PInt 2, PStr ''France'']))] EndOfArray,
       sale_order_lines_json =
         Readable [PDict (sale_of (PStr ''2024-01-01'') (PList [PInt 10, PStr ''Cola''])
                            (PList [PInt 5, PStr ''Bob'']) (PStr ''3''))] EndOfArray \<rparr>"

lemmas model_defs =
  process_sale_def process_category_def process_product_def process_contact_def
  dict_get_def dict_item_def extract_id_def validate_numeric_def
  add_qty_def add_qty2_def add_member_def
  CategoryLoadStrategy_load_def ProductLoadStrategy_load_def
  ContactLoadStrategy_load_def SalesLoadStrategy_load_def
  stage_failed_def get_loader_def load_data_def initialize_data_def
  DataLoader_init_def dbl_overflow_def example_float_of_str_def
  example_store_def sale_of_def contact_of_def example_folder_def

section \<open>Rounding to a double\<close>

text \<open>
  \<open>floor_log2\<close> is the integer binary logarithm, and every integer of magnitude up
  to \<open>2 ^ 53\<close> is a double: rounding leaves it as it is.
\<close>

lemma int_bitlen_bounds:
  assumes "0 < (p::int)"
  shows "(2::rat) powi (bitlen p - 1) \<le> of_int p" and "of_int p < (2::rat) powi bitlen p"
proof -
  from assms have b: "1 \<le> bitlen p" by (auto simp: bitlen_alt_def)
  from bitlen_bounds [OF assms]
  have l: "2 ^ nat (bitlen p - 1) \<le> p" and u: "p < 2 ^ nat (bitlen p)" by auto
  from l have "(of_int (2 ^ nat (bitlen p - 1)) :: rat) \<le> of_int p" by (simp only: of_int_le_iff)
  then show "(2::rat) powi (bitlen p - 1) \<le> of_int p"
    using b by (simp add: power_int_def)
  from u have "(of_int p :: rat) < of_int (2 ^ nat (bitlen p))" by (simp only: of_int_less_iff)
  then show "of_int p < (2::rat) powi bitlen p"
    using b by (simp add: power_int_def)
qed

lemma floor_log2_bounds:
  assumes "0 < a"
  shows "2 powi floor_log2 a \<le> a \<and> a < 2 powi (floor_log2 a + 1)"
proof -
  obtain p q where pq: "quotient_of a = (p, q)" by (cases "quotient_of a")
  then have q: "0 < q" and a: "a = of_int p / of_int q"
    using quotient_of_denom_pos quotient_of_div by auto
  with assms have p: "0 < p"
    by (simp add: zero_less_divide_iff)
  define k where "k = bitlen p - bitlen q"
  note P = int_bitlen_bounds [OF p] and Q = int_bitlen_bounds [OF q]
  have qpos: "(0::rat) < of_int q" and ppos: "(0::rat) \<le> of_int p" using q p by simp_all
  have pw: "(0::rat) < 2 powi n" for n by (simp add: zero_less_power_int)
  have "a < 2 powi bitlen p / 2 powi (bitlen q - 1)"
    unfolding a by (rule frac_less [OF ppos P(2) pw Q(1)])
  also have "\<dots> = 2 powi (k + 1)"
    by (simp add: k_def power_int_diff power_int_add)
  finally have up: "a < 2 powi (k + 1)" .
  have "2 powi (k - 1) = (2::rat) powi (bitlen p - 1) / 2 powi bitlen q"
    by (simp add: k_def power_int_diff power_int_add)
  also have "\<dots> < a"
    unfolding a by (rule frac_less2 [OF pw P(1) qpos Q(2)])
  finally have lo: "2 powi (k - 1) < a" .
  show ?thesis
    using up lo by (auto simp: floor_log2_def pq k_def [symmetric] Let_def)
qed


lemma round_half_even_int: "x \<in> \<int> \<Longrightarrow> of_int (round_half_even x) = x"
  by (auto simp: round_half_even_def Ints_def)

lemma round_double_exact_int [simp]:
  assumes "r \<in> \<int>" and "\<bar>r\<bar> \<le> 2 ^ 53"
  shows "round_double r = Fin r"
proof (cases "r = 0")
  case True
  then show ?thesis by (simp add: round_double_def)
next
  case False
  define a where "a = \<bar>r\<bar>"
  from assms(1) have aint: "a \<in> \<int>" by (simp add: a_def)
  with False have a1: "1 \<le> a"
    unfolding a_def using assms(1) by (auto simp: Ints_def)
  then have apos: "0 < a" by simp
  define fl where "fl = floor_log2 a"
  from floor_log2_bounds [OF apos]
  have lo: "2 powi fl \<le> a" and up: "a < 2 powi (fl + 1)" by (simp_all add: fl_def)
  have "\<not> fl + 1 \<le> 0"
  proof
    assume "fl + 1 \<le> 0"
    then have "(2::rat) powi (fl + 1) \<le> 2 powi 0"
      by (intro power_int_increasing) simp_all
    with up a1 show False by simp
  qed
  then have fl0: "0 \<le> fl" by simp
  have fl53: "fl \<le> 53"
  proof (rule ccontr)
    assume "\<not> fl \<le> 53"
    then have "54 \<le> fl" by simp
    then have "(2::rat) powi 54 \<le> 2 powi fl"
      by (intro power_int_increasing) simp_all
    with lo assms(2) show False by (simp add: a_def)
  qed
  define e where "e = max (fl - 52) (- 1074)"
  from fl0 have e: "e = fl - 52" by (simp add: e_def)
  have q: "a / 2 powi e \<in> \<int>"
  proof (cases "e \<le> 0")
    case True
    then have "a / 2 powi e = a * 2 ^ nat (- e)"
      by (simp add: power_int_def field_simps)
    with aint show ?thesis by simp
  next
    case False
    with e fl53 have e1: "e = 1" and "fl = 53" by simp_all
    with lo assms(2) have "a = 2 ^ 53" by (simp add: a_def)
    then have "a / 2 powi e = 2 ^ 52" by (simp add: e1)
    then show ?thesis by simp
  qed
  have v: "of_int (round_half_even (a / 2 powi e)) * 2 powi e = a"
    by (simp add: round_half_even_int [OF q])
  have "\<not> (2::rat) ^ 1024 \<le> a"
    using assms(2) by (simp add: a_def)
  with False v show ?thesis
    unfolding round_double_def Let_def a_def [symmetric] fl_def [symmetric] e_def [symmetric]
    by (simp add: a_def sgn_mult_abs abs_mult_sgn)
qed

text \<open>
  Rounding at work: \<^verbatim>\<open>float(Decimal('0.1'))\<close>, \<^verbatim>\<open>0.1 + 0.2\<close> (which is
  \<^verbatim>\<open>0.30000000000000004\<close>), and \<^verbatim>\<open>2**53 + 1.0\<close>, which stays \<^verbatim>\<open>2**53\<close>.
\<close>

lemma round_double_tenth:
  "round_double (1 / 10) = Fin (3602879701896397 / 36028797018963968)"
  by code_simp

lemma fadd_tenth_fifth:
  "fadd (Fin (3602879701896397 / 36028797018963968)) (Fin (3602879701896397 / 18014398509481984))
     = Fin (1351079888211149 / 4503599627370496)"
  by code_simp

lemma round_double_above_2_53 [simp]:
  "round_double 9007199254740993 = Fin 9007199254740992"
  by code_simp

section \<open>The field extractors\<close>

text \<open>
  C5, as claimed, fails: \<open>extract_id\<close> does not answer \<^verbatim>\<open>None\<close> for every shape
  other than the two-element pair. A one-element list is not the pair form, and its
  element is returned.
\<close>

theorem extract_id_singleton_counterexample:
  "length [PInt 5] \<noteq> 2 \<and> extract_id (PList [PInt 5]) = PInt 5 \<and> PInt 5 \<noteq> PNone"
  by (simp add: extract_id_def)

text \<open>
  C5, amended: \<open>extract_id\<close> returns the first element of every non-empty list, of
  whatever length, and \<^verbatim>\<open>None\<close> for the empty list and for every value that is not
  a list (missing, scalar, string, object). It is total: the index is guarded by the
  length test, so no input raises.
\<close>

theorem extract_id_first_of_nonempty_list:
  "extract_id v = (case v of PList (x # xs) \<Rightarrow> x | _ \<Rightarrow> PNone)"
  by (simp add: extract_id_def split: pyval.splits list.splits)

text \<open>
  What \<open>validate_numeric\<close> does on every input: the clamped conversion when
  \<^verbatim>\<open>float\<close> succeeds, the default and a warning on \<^verbatim>\<open>TypeError\<close> and
  \<^verbatim>\<open>ValueError\<close>, and the one exception it lets through.
\<close>

lemma validate_numeric_cases:
  "validate_numeric sf v dflt lg =
     (case py_float sf v of
        Ok f \<Rightarrow> (Ok (max_zero f), lg)
      | Raise e \<Rightarrow>
          if e = OverflowError then (Raise OverflowError, lg)
          else (Ok dflt, lg @ [InvalidNumeric v]))"
  by (cases v) (auto simp: validate_numeric_def split: result.splits option.splits)

lemma max_zero_nonneg: "f \<noteq> NaN \<Longrightarrow> nonneg (max_zero f)"
  by (cases f) (auto simp: nonneg_def)

lemma validate_numeric_nan:
  "sf s = Some NaN \<Longrightarrow> validate_numeric sf (PStr s) dflt lg = (Ok NaN, lg) \<and> \<not> nonneg NaN"
  by (simp add: validate_numeric_def nonneg_def)

text \<open>
  C6 says that \<open>validate_numeric\<close> never raises. The code catches \<^verbatim>\<open>TypeError\<close>
  and \<^verbatim>\<open>ValueError\<close> only: on an integer too large for a double, \<^verbatim>\<open>float\<close>
  raises \<^verbatim>\<open>OverflowError\<close>, which leaves the function, whatever the default.
\<close>

theorem validate_numeric_raises_overflow:
  "validate_numeric sf (PInt (10 ^ 400)) dflt lg = (Raise OverflowError, lg)"
  by (simp add: validate_numeric_def dbl_overflow_def)

section \<open>The category strategy\<close>

text \<open>
  C4: for every category record, an index entry that the transform writes has the
  parent \<^verbatim>\<open>"No Parent"\<close> if the raw \<^verbatim>\<open>parent_id\<close> is the boolean
  \<^verbatim>\<open>true\<close>, and an absent parent for every other value of \<^verbatim>\<open>parent_id\<close>
  (absent, \<^verbatim>\<open>false\<close>, scalar, list, object); and when the record has a hashable
  id and a name, the transform succeeds and stores that entry under the id.
\<close>

theorem category_parent_iff_parent_id_true:
  fixes kvs dl
  defines "parent \<equiv>
     (if map_of kvs ''parent_id'' = Some (PBool True) then Some ''No Parent'' else None)"
  defines "dl' \<equiv> snd (process_category (PDict kvs) dl)"
  shows "(\<forall>k. category_index dl' k = category_index dl k \<or>
              (\<exists>nm. category_index dl' k = Some (IndexEntry nm parent))) \<and>
         (\<forall>cid k nm.
            map_of kvs ''id'' = Some cid \<and> hash_key cid = Ok k \<and>
            map_of kvs ''name'' = Some nm
            \<longrightarrow> fst (process_category (PDict kvs) dl) = Ok () \<and>
                category_index dl' k = Some (IndexEntry nm parent))"
  unfolding parent_def dl'_def
  by (auto simp: process_category_def dict_get_def dict_item_def Let_def
           split: option.splits pyval.splits result.splits)

text \<open>
  The theorem at a record with \<^verbatim>\<open>parent_id\<close> true, at one with \<^verbatim>\<open>parent_id\<close>
  false, and at one without \<^verbatim>\<open>parent_id\<close>.
\<close>

theorem category_parent_iff_parent_id_true_witness:
  "category_index
     (snd (process_category
        (PDict [(''id'', PInt 1), (''name'', PStr ''Drinks''), (''parent_id'', PBool True)])
        DataLoader_init)) (KNum 1)
     = Some (IndexEntry (PStr ''Drinks'') (Some ''No Parent'')) \<and>
   category_index
     (snd (process_category
        (PDict [(''id'', PInt 2), (''name'', PStr ''Food''), (''parent_id'', PBool False)])
        DataLoader_init)) (KNum 2)
     = Some (IndexEntry (PStr ''Food'') None) \<and>
   category_index
     (snd (process_category
        (PDict [(''id'', PInt 3), (''name'', PStr ''Toys'')])
        DataLoader_init)) (KNum 3)
     = Some (IndexEntry (PStr ''Toys'') None)"
proof -
  let ?a = "[(''id'', PInt 1), (''name'', PStr ''Drinks''), (''parent_id'', PBool True)]"
  let ?b = "[(''id'', PInt 2), (''name'', PStr ''Food''), (''parent_id'', PBool False)]"
  let ?c = "[(''id'', PInt 3), (''name'', PStr ''Toys'')]"
  have a: "map_of ?a ''id'' = Some (PInt 1) \<and> hash_key (PInt 1) = Ok (KNum 1) \<and>
           map_of ?a ''name'' = Some (PStr ''Drinks'')"
    by simp
  have b: "map_of ?b ''id'' = Some (PInt 2) \<and> hash_key (PInt 2) = Ok (KNum 2) \<and>
           map_of ?b ''name'' = Some (PStr ''Food'')"
    by simp
  have c: "map_of ?c ''id'' = Some (PInt 3) \<and> hash_key (PInt 3) = Ok (KNum 3) \<and>
           map_of ?c ''name'' = Some (PStr ''Toys'')"
    by simp
  have pa: "map_of ?a ''parent_id'' = Some (PBool True)"
    and pb: "map_of ?b ''parent_id'' \<noteq> Some (PBool True)"
    and pc: "map_of ?c ''parent_id'' \<noteq> Some (PBool True)"
    by simp_all
  from category_parent_iff_parent_id_true [of ?a DataLoader_init] a
  have 1: "category_index (snd (process_category (PDict ?a) DataLoader_init)) (KNum 1) =
     Some (IndexEntry (PStr ''Drinks'')
       (if map_of ?a ''parent_id'' = Some (PBool True) then Some ''No Parent'' else None))"
    by blast
  from category_parent_iff_parent_id_true [of ?b DataLoader_init] b
  have 2: "category_index (snd (process_category (PDict ?b) DataLoader_init)) (KNum 2) =
     Some (IndexEntry (PStr ''Food'')
       (if map_of ?b ''parent_id'' = Some (PBool True) then Some ''No Parent'' else None))"
    by blast
  from category_parent_iff_parent_id_true [of ?c DataLoader_init] c
  have 3: "category_index (snd (process_category (PDict ?c) DataLoader_init)) (KNum 3) =
     Some (IndexEntry (PStr ''Toys'')
       (if map_of ?c ''parent_id'' = Some (PBool True) then Some ''No Parent'' else None))"
    by blast
  from 1 2 3 pa pb pc show ?thesis by simp
qed

text \<open>The same for a record of any shape: one that is not an object writes nothing.\<close>

lemma category_entries_written:
  "category_index (snd (process_category c dl)) k = category_index dl k \<or>
   (\<exists>nm. category_index (snd (process_category c dl)) k =
      Some (IndexEntry nm
        (if (\<exists>kvs. c = PDict kvs \<and> map_of kvs ''parent_id'' = Some (PBool True))
         then Some ''No Parent'' else None)))"
  by (auto simp: process_category_def dict_get_def dict_item_def Let_def
           split: option.splits pyval.splits result.splits)

section \<open>The sales strategy, record by record\<close>

text \<open>
  The record that \<open>process_sale\<close> accepts, and the store it leaves: the filter passes, the
  product id is truthy, and every key the transform hashes is hashable.
\<close>

lemma process_sale_accepted:
  assumes "dict_get kvs ''create_date'' (PStr []) = PStr d" and "prefix ''2024'' d"
    and "extract_id (dict_get kvs ''product_id'' PNone) = p" and "truthy p"
    and "hash_key p = Ok pk"
    and "extract_id (dict_get kvs ''order_partner_id'' PNone) = c" and "hash_key c = Ok ck"
    and "validate_numeric sf (dict_get kvs ''product_uom_qty'' (PInt 0)) (Fin 0) (app_log dl)
           = (Ok q, lg)"
    and "(case contact_country_map dl ck of None \<Rightarrow> PStr ''Unknown''
          | Some r \<Rightarrow> country_name r) = cn"
    and "hash_key cn = Ok nk"
    and "(case product_category_map dl pk of None \<Rightarrow> PNone | Some r \<Rightarrow> ref_id r) = g"
    and "hash_key g = Ok gk \<or> \<not> truthy g"
  shows "process_sale sf (PDict kvs) dl =
    (Ok True,
     dl\<lparr>category_sales :=
          (if truthy g then add_qty (category_sales dl) gk q else category_sales dl),
        category_product_sales :=
          (if truthy g then add_qty2 (category_product_sales dl) gk pk q
           else category_product_sales dl),
        country_product_sales := add_qty2 (country_product_sales dl) nk pk q,
        client_products :=
          (if truthy c then add_member (client_products dl) ck pk else client_products dl),
        app_log := lg\<rparr>)"
  using assms
  by (auto simp: process_sale_def Let_def split: result.splits)


lemma stored_at_add_qty2:
  "stored_at (add_qty2 m k1 k2 q) a b =
     (if a = k1 \<and> b = k2 then Some (fadd (qty_at m k1 k2) q) else stored_at m a b)"
  by (auto simp: stored_at_def qty_at_def add_qty2_def add_qty_def split: option.splits)

text \<open>
  C2, as claimed, fails, in two ways. A record that passes the period filter and has a
  resolvable product id, but whose customer id is a list, makes
  \<^verbatim>\<open>contact_country_map.get\<close> raise \<^verbatim>\<open>TypeError\<close> (unhashable type): nothing is
  stored for the product, and the store is left as it was. And an accepted record does
  not always increase the total by exactly its quantity: after a sale of
  9007199254740992 (\<open>2 ^ 53\<close>) units to a French customer, an accepted sale of one more
  unit leaves the total at 9007199254740992.0, because the sum is rounded to a double.
\<close>

theorem country_total_not_increased_counterexample:
  "process_sale example_float_of_str
     (PDict (sale_of (PStr ''2024-03-01'') (PList [PInt 10, PStr ''Cola''])
               (PList [PList [PInt 5], PStr ''Bob'']) (PInt 3)))
     example_store = (Raise TypeError, example_store) \<and>
   validate_numeric example_float_of_str (PInt 3) (Fin 0) (app_log example_store)
     = (Ok (Fin 3), app_log example_store) \<and>
   stored_at (country_product_sales example_store) (KStr ''Unknown'') (KNum 10) = None \<and>
   stored_at (country_product_sales (snd (process_sale example_float_of_str
       (PDict (sale_of (PStr ''2024-03-01'') (PList [PInt 10, PStr ''Cola''])
                 (PList [PInt 5, PStr ''Bob'']) (PInt 9007199254740992)))
       example_store))) (KStr ''France'') (KNum 10) = Some (Fin 9007199254740992) \<and>
   validate_numeric example_float_of_str (PInt 1) (Fin 0) [] = (Ok (Fin 1), []) \<and>
   fst (process_sale example_float_of_str
       (PDict (sale_of (PStr ''2024-03-02'') (PList [PInt 10, PStr ''Cola''])
                 (PList [PInt 5, PStr ''Bob'']) (PInt 1)))
       (snd (process_sale example_float_of_str
          (PDict (sale_of (PStr ''2024-03-01'') (PList [PInt 10, PStr ''Cola''])
                    (PList [PInt 5, PStr ''Bob'']) (PInt 9007199254740992)))
          example_store))) = Ok True \<and>
   stored_at (country_product_sales (snd (process_sale example_float_of_str
       (PDict (sale_of (PStr ''2024-03-02'') (PList [PInt 10, PStr ''Cola''])
                 (PList [PInt 5, PStr ''Bob'']) (PInt 1)))
       (snd (process_sale example_float_of_str
          (PDict (sale_of (PStr ''2024-03-01'') (PList [PInt 10, PStr ''Cola''])
                    (PList [PInt 5, PStr ''Bob'']) (PInt 9007199254740992)))
          example_store))))) (KStr ''France'') (KNum 10) = Some (Fin 9007199254740992)"
  by (simp add: model_defs stored_at_def Let_def)

text \<open>
  C2, amended: for every sale record that passes the period filter, whose extracted
  product id is truthy, whose quantity \<open>validate_numeric\<close> converts to \<open>q\<close>, and whose
  processing hashes only hashable keys (the product id, the customer id, the resolved
  country name, and the resolved category id when there is one), the transform returns
  \<^verbatim>\<open>True\<close> and stores under \<^verbatim>\<open>country_product_sales[country][product]\<close> the
  float sum of the previous total (0.0 when none was stored) and \<open>q\<close>, that is, their
  sum rounded to a double; every other entry of \<^verbatim>\<open>country_product_sales\<close> stays as
  it was, stored or not. This holds whether or not a category id is resolved for the
  product.
\<close>

theorem country_total_grows_by_quantity:
  assumes "dict_get kvs ''create_date'' (PStr []) = PStr d" and "prefix ''2024'' d"
    and "extract_id (dict_get kvs ''product_id'' PNone) = p" and "truthy p"
    and "hash_key p = Ok pk"
    and "hash_key (extract_id (dict_get kvs ''order_partner_id'' PNone)) = Ok ck"
    and "validate_numeric sf (dict_get kvs ''product_uom_qty'' (PInt 0)) (Fin 0) (app_log dl)
           = (Ok q, lg)"
    and "hash_key (case contact_country_map dl ck of None \<Rightarrow> PStr ''Unknown''
                   | Some r \<Rightarrow> country_name r) = Ok nk"
    and "(case product_category_map dl pk of None \<Rightarrow> PNone | Some r \<Rightarrow> ref_id r) = g"
    and "hash_key g = Ok gk \<or> \<not> truthy g"
  shows "fst (process_sale sf (PDict kvs) dl) = Ok True \<and>
         stored_at (country_product_sales (snd (process_sale sf (PDict kvs) dl))) nk pk =
           Some (fadd (qty_at (country_product_sales dl) nk pk) q) \<and>
         (\<forall>a b. (a, b) \<noteq> (nk, pk) \<longrightarrow>
            stored_at (country_product_sales (snd (process_sale sf (PDict kvs) dl))) a b =
              stored_at (country_product_sales dl) a b)"
  using process_sale_accepted [OF assms(1-5) refl assms(6,7) refl assms(8-10)]
  by (simp add: stored_at_add_qty2)

text \<open>
  The theorem at three records sold to the French customer: one whose product has a
  category in the store, and two (product 11) whose category lookup fails, with the
  quantities 3 and -7. Each stores a total for France where none was stored; the
  quantity -7 counts as 0.0.
\<close>

theorem country_total_grows_by_quantity_witness:
  "stored_at (country_product_sales example_store) (KStr ''France'') (KNum 10) = None \<and>
   stored_at (country_product_sales example_store) (KStr ''France'') (KNum 11) = None \<and>
   stored_at (country_product_sales (snd (process_sale example_float_of_str
      (PDict (sale_of (PStr ''2024-03-01'') (PList [PInt 10, PStr ''Cola''])
                (PList [PInt 5, PStr ''Bob'']) (PStr ''3'')))
      example_store))) (KStr ''France'') (KNum 10) = Some (Fin 3) \<and>
   stored_at (country_product_sales (snd (process_sale example_float_of_str
      (PDict (sale_of (PStr ''2024-03-01'') (PList [PInt 11, PStr ''Tea''])
                (PList [PInt 5, PStr ''Bob'']) (PStr ''3'')))
      example_store))) (KStr ''France'') (KNum 11) = Some (Fin 3) \<and>
   stored_at (country_product_sales (snd (process_sale example_float_of_str
      (PDict (sale_of (PStr ''2024-03-01'') (PList [PInt 11, PStr ''Tea''])
                (PList [PInt 5, PStr ''Bob'']) (PStr ''-7'')))
      example_store))) (KStr ''France'') (KNum 11) = Some (Fin 0)"
proof -
  let ?a = "sale_of (PStr ''2024-03-01'') (PList [PInt 10, PStr ''Cola''])
              (PList [PInt 5, PStr ''Bob'']) (PStr ''3'')"
  let ?b = "sale_of (PStr ''2024-03-01'') (PList [PInt 11, PStr ''Tea''])
              (PList [PInt 5, PStr ''Bob'']) (PStr ''3'')"
  let ?c = "sale_of (PStr ''2024-03-01'') (PList [PInt 11, PStr ''Tea''])
              (PList [PInt 5, PStr ''Bob'']) (PStr ''-7'')"
  have a: "dict_get ?a ''create_date'' (PStr []) = PStr ''2024-03-01''"
      "prefix ''2024'' ''2024-03-01''"
      "extract_id (dict_get ?a ''product_id'' PNone) = PInt 10"
      "truthy (PInt 10)" "hash_key (PInt 10) = Ok (KNum 10)"
      "hash_key (extract_id (dict_get ?a ''order_partner_id'' PNone)) = Ok (KNum 5)"
      "validate_numeric example_float_of_str (dict_get ?a ''product_uom_qty'' (PInt 0)) (Fin 0)
         (app_log example_store) = (Ok (Fin 3), [])"
      "hash_key (case contact_country_map example_store (KNum 5) of
                   None \<Rightarrow> PStr ''Unknown'' | Some r \<Rightarrow> country_name r) = Ok (KStr ''France'')"
      "(case product_category_map example_store (KNum 10) of
          None \<Rightarrow> PNone | Some r \<Rightarrow> ref_id r) = PInt 1"
      "hash_key (PInt 1) = Ok (KNum 1) \<or> \<not> truthy (PInt 1)"
    by (simp_all add: model_defs)
  have b: "dict_get ?b ''create_date'' (PStr []) = PStr ''2024-03-01''"
      "prefix ''2024'' ''2024-03-01''"
      "extract_id (dict_get ?b ''product_id'' PNone) = PInt 11"
      "truthy (PInt 11)" "hash_key (PInt 11) = Ok (KNum 11)"
      "hash_key (extract_id (dict_get ?b ''order_partner_id'' PNone)) = Ok (KNum 5)"
      "validate_numeric example_float_of_str (dict_get ?b ''product_uom_qty'' (PInt 0)) (Fin 0)
         (app_log example_store) = (Ok (Fin 3), [])"
      "hash_key (case contact_country_map example_store (KNum 5) of
                   None \<Rightarrow> PStr ''Unknown'' | Some r \<Rightarrow> country_name r) = Ok (KStr ''France'')"
      "(case product_category_map example_store (KNum 11) of
          None \<Rightarrow> PNone | Some r \<Rightarrow> ref_id r) = PNone"
      "hash_key PNone = Ok KNone \<or> \<not> truthy PNone"
    by (simp_all add: model_defs)
  have c: "dict_get ?c ''create_date'' (PStr []) = PStr ''2024-03-01''"
      "prefix ''2024'' ''2024-03-01''"
      "extract_id (dict_get ?c ''product_id'' PNone) = PInt 11"
      "truthy (PInt 11)" "hash_key (PInt 11) = Ok (KNum 11)"
      "hash_key (extract_id (dict_get ?c ''order_partner_id'' PNone)) = Ok (KNum 5)"
      "validate_numeric example_float_of_str (dict_get ?c ''product_uom_qty'' (PInt 0)) (Fin 0)
         (app_log example_store) = (Ok (Fin 0), [])"
      "hash_key (case contact_country_map example_store (KNum 5) of
                   None \<Rightarrow> PStr ''Unknown'' | Some r \<Rightarrow> country_name r) = Ok (KStr ''France'')"
      "(case product_category_map example_store (KNum 11) of
          None \<Rightarrow> PNone | Some r \<Rightarrow> ref_id r) = PNone"
      "hash_key PNone = Ok KNone \<or> \<not> truthy PNone"
    by (simp_all add: model_defs)
  have none: "stored_at (country_product_sales example_store) (KStr ''France'') (KNum 10) = None"
    "stored_at (country_product_sales example_store) (KStr ''France'') (KNum 11) = None"
    by (simp_all add: stored_at_def example_store_def DataLoader_init_def)
  from country_total_grows_by_quantity [OF a] country_total_grows_by_quantity [OF b]
    country_total_grows_by_quantity [OF c] none
  show ?thesis
    by (simp add: qty_at_def example_store_def DataLoader_init_def)
qed

text \<open>
  C3: a sale record whose \<^verbatim>\<open>create_date\<close> is not a string starting with
  \<^verbatim>\<open>"2024"\<close> (absent, another string, or not a string at all) leaves the whole
  store, hence every aggregate, unchanged, whatever its other fields: the transform
  returns \<^verbatim>\<open>False\<close>, or raises \<^verbatim>\<open>AttributeError\<close> before touching the store.
\<close>

theorem sale_outside_period_changes_nothing:
  assumes "\<And>kvs d. sale = PDict kvs \<Longrightarrow> map_of kvs ''create_date'' = Some (PStr d)
             \<Longrightarrow> \<not> prefix ''2024'' d"
  shows "process_sale sf sale dl = (Ok False, dl) \<or>
         process_sale sf sale dl = (Raise AttributeError, dl)"
  using assms
  by (auto simp: process_sale_def dict_get_def split: option.splits pyval.splits)

theorem sale_outside_period_changes_nothing_witness:
  "process_sale example_float_of_str
     (PDict (sale_of (PStr ''2023-12-31'') (PList [PInt 10, PStr ''Cola''])
               (PList [PInt 5, PStr ''Bob'']) (PStr ''3'')))
     example_store = (Ok False, example_store) \<and>
   process_sale example_float_of_str
     (PDict [(''product_id'', PList [PInt 10, PStr ''Cola'']), (''product_uom_qty'', PInt 4)])
     example_store = (Ok False, example_store) \<and>
   process_sale example_float_of_str
     (PDict (sale_of (PInt 2024) (PList [PInt 10, PStr ''Cola''])
               (PList [PInt 5, PStr ''Bob'']) (PStr ''3'')))
     example_store = (Raise AttributeError, example_store)"
proof -
  let ?a = "PDict (sale_of (PStr ''2023-12-31'') (PList [PInt 10, PStr ''Cola''])
                     (PList [PInt 5, PStr ''Bob'']) (PStr ''3''))"
  let ?b = "PDict [(''product_id'', PList [PInt 10, PStr ''Cola'']), (''product_uom_qty'', PInt 4)]"
  let ?c = "PDict (sale_of (PInt 2024) (PList [PInt 10, PStr ''Cola''])
                     (PList [PInt 5, PStr ''Bob'']) (PStr ''3''))"
  have a: "process_sale example_float_of_str ?a example_store = (Ok False, example_store) \<or>
           process_sale example_float_of_str ?a example_store = (Raise AttributeError, example_store)"
    by (rule sale_outside_period_changes_nothing) (auto simp: sale_of_def)
  have b: "process_sale example_float_of_str ?b example_store = (Ok False, example_store) \<or>
           process_sale example_float_of_str ?b example_store = (Raise AttributeError, example_store)"
    by (rule sale_outside_period_changes_nothing) auto
  have c: "process_sale example_float_of_str ?c example_store = (Ok False, example_store) \<or>
           process_sale example_float_of_str ?c example_store = (Raise AttributeError, example_store)"
    by (rule sale_outside_period_changes_nothing) (auto simp: sale_of_def)
  have na: "fst (process_sale example_float_of_str ?a example_store) \<noteq> Raise AttributeError"
    and nb: "fst (process_sale example_float_of_str ?b example_store) \<noteq> Raise AttributeError"
    and nc: "fst (process_sale example_float_of_str ?c example_store) \<noteq> Ok False"
    by (simp_all add: process_sale_def dict_get_def sale_of_def)
  from a b c na nb nc show ?thesis by auto
qed




section \<open>The contact strategy and the country code index\<close>

lemma process_contact_keeps_code:
  "country_code_map dl n = Some c \<Longrightarrow>
     country_code_map (snd (process_contact x dl)) n = Some c"
  by (auto simp: process_contact_def Let_def split: pyval.splits result.splits option.splits)

lemma for_each_contact_keeps_code:
  "country_code_map dl n = Some c \<Longrightarrow>
     country_code_map (snd (for_each process_contact xs dl)) n = Some c"
proof (induction xs arbitrary: dl)
  case Nil
  then show ?case by simp
next
  case (Cons x xs)
  show ?case
  proof (cases "process_contact x dl")
    case (Pair r dl')
    with Cons.prems have k: "country_code_map dl' n = Some c"
      using process_contact_keeps_code [of dl n c x] by simp
    show ?thesis
    proof (cases r)
      case (Ok u)
      with Pair Cons.IH [OF k] show ?thesis by simp
    next
      case (Raise e)
      with Pair k show ?thesis by simp
    qed
  qed
qed

lemma contact_load_keeps_code:
  "country_code_map dl n = Some c \<Longrightarrow>
     country_code_map (snd (ContactLoadStrategy_load f dl)) n = Some c"
  using for_each_contact_keeps_code [of dl n c]
  by (auto simp: ContactLoadStrategy_load_def stage_failed_def
           split: json_file.splits prod.splits result.splits stream_end.splits)
     (metis snd_conv)+

lemma conflicting_code_logged:
  assumes "map_of kvs ''id'' = Some i" and "hash_key i = Ok k"
    and "map_of kvs ''country_id'' = Some (PList (code # nm # rest))"
    and "hash_key nm = Ok n"
    and "country_code_map dl n = Some c" and "\<not> py_eq c code"
  shows "process_contact (PDict kvs) dl =
     (Ok (), dl\<lparr>contacts := (contacts dl)(k \<mapsto> PDict kvs),
                contact_country_map := (contact_country_map dl)(k \<mapsto> CountryRef code nm),
                app_log := app_log dl @ [CountryCodeConflict nm c code]\<rparr>)"
  using assms by (simp add: process_contact_def dict_get_def dict_item_def Let_def)

text \<open>The first code seen for a country name is the one stored.\<close>

lemma first_code_stored:
  assumes "map_of kvs ''id'' = Some i" and "hash_key i = Ok k"
    and "map_of kvs ''country_id'' = Some (PList (code # nm # rest))"
    and "hash_key nm = Ok n"
    and "country_code_map dl n = None"
  shows "fst (process_contact (PDict kvs) dl) = Ok () \<and>
         country_code_map (snd (process_contact (PDict kvs) dl)) n = Some code"
  using assms by (simp add: process_contact_def dict_get_def dict_item_def Let_def)

text \<open>
  C7: first-seen-wins. Once a code is stored for a country name, it is still stored,
  unchanged, after any sequence of contact records has been processed (by the loop, and
  by the whole contact stage on any file): nothing overwrites or removes it. A later
  contact that carries a different code for that name is accepted, leaves the index as
  it is, and logs the conflict.
\<close>

theorem country_code_first_seen_wins:
  assumes "country_code_map dl n = Some c"
  shows "country_code_map (snd (for_each process_contact recs dl)) n = Some c \<and>
         country_code_map (snd (ContactLoadStrategy_load f dl)) n = Some c \<and>
         (\<forall>kvs i k code nm rest.
            map_of kvs ''id'' = Some i \<and> hash_key i = Ok k \<and>
            map_of kvs ''country_id'' = Some (PList (code # nm # rest)) \<and>
            hash_key nm = Ok n \<and> \<not> py_eq c code
            \<longrightarrow> fst (process_contact (PDict kvs) dl) = Ok () \<and>
                country_code_map (snd (process_contact (PDict kvs) dl)) = country_code_map dl \<and>
                app_log (snd (process_contact (PDict kvs) dl)) =
                  app_log dl @ [CountryCodeConflict nm c code])"
proof (intro conjI allI impI)
  show "country_code_map (snd (for_each process_contact recs dl)) n = Some c"
    by (rule for_each_contact_keeps_code [OF assms])
  show "country_code_map (snd (ContactLoadStrategy_load f dl)) n = Some c"
    by (rule contact_load_keeps_code [OF assms])
next
  fix kvs i k code nm rest
  assume a: "map_of kvs ''id'' = Some i \<and> hash_key i = Ok k \<and>
            map_of kvs ''country_id'' = Some (PList (code # nm # rest)) \<and>
            hash_key nm = Ok n \<and> \<not> py_eq c code"
  have r: "process_contact (PDict kvs) dl =
     (Ok (), dl\<lparr>contacts := (contacts dl)(k \<mapsto> PDict kvs),
                contact_country_map := (contact_country_map dl)(k \<mapsto> CountryRef code nm),
                app_log := app_log dl @ [CountryCodeConflict nm c code]\<rparr>)"
    using conflicting_code_logged [of kvs i k code nm rest n dl c] a assms by blast
  show "fst (process_contact (PDict kvs) dl) = Ok ()"
    and "country_code_map (snd (process_contact (PDict kvs) dl)) = country_code_map dl"
    and "app_log (snd (process_contact (PDict kvs) dl)) =
           app_log dl @ [CountryCodeConflict nm c code]"
    by (simp_all add: r)
qed

text \<open>
  The theorem on the store left by a first contact from France with code 2: a second
  contact from France with code 3 leaves the code 2 and logs the conflict.
\<close>

theorem country_code_first_seen_wins_witness:
  "country_code_map
     (snd (for_each process_contact
        [PDict (contact_of (PInt 6) (PList [PInt 3, PStr ''France'']))]
        (snd (process_contact (PDict (contact_of (PInt 5) (PList [PInt 2, PStr ''France''])))
                DataLoader_init))))
     (KStr ''France'') = Some (PInt 2) \<and>
   app_log
     (snd (process_contact (PDict (contact_of (PInt 6) (PList [PInt 3, PStr ''France''])))
        (snd (process_contact (PDict (contact_of (PInt 5) (PList [PInt 2, PStr ''France''])))
                DataLoader_init))))
     = [CountryCodeConflict (PStr ''France'') (PInt 2) (PInt 3)]"
proof -
  let ?dl = "snd (process_contact (PDict (contact_of (PInt 5) (PList [PInt 2, PStr ''France''])))
                DataLoader_init)"
  let ?b = "contact_of (PInt 6) (PList [PInt 3, PStr ''France''])"
  have h: "country_code_map ?dl (KStr ''France'') = Some (PInt 2)"
    by (simp add: model_defs Let_def)
  have lg: "app_log ?dl = []"
    by (simp add: model_defs Let_def)
  have b: "map_of ?b ''id'' = Some (PInt 6) \<and> hash_key (PInt 6) = Ok (KNum 6) \<and>
           map_of ?b ''country_id'' = Some (PList (PInt 3 # PStr ''France'' # [])) \<and>
           hash_key (PStr ''France'') = Ok (KStr ''France'') \<and> \<not> py_eq (PInt 2) (PInt 3)"
    by (simp add: contact_of_def)
  from country_code_first_seen_wins [OF h, of "[PDict ?b]" Unreadable] b lg
  show ?thesis by fastforce
qed

section \<open>What leaves a load strategy\<close>

text \<open>
  The outcome of each \<^verbatim>\<open>load\<close>: the \<^verbatim>\<open>try\<close> block encloses the whole loop, so an
  exception of a record transform is handled by the same \<^verbatim>\<open>except Exception\<close> as a
  failure to open or to parse the file.
\<close>

lemma category_load_result:
  "fst (CategoryLoadStrategy_load f dl) =
     (case f of
        Unreadable \<Rightarrow> Raise (DataLoaderException Category OSError)
      | Readable items fin \<Rightarrow>
          (case fst (for_each process_category items dl) of
             Raise e \<Rightarrow> Raise (DataLoaderException Category e)
           | Ok u \<Rightarrow> (case fin of BadSyntax \<Rightarrow> Raise (DataLoaderException Category JSONError)
                      | EndOfArray \<Rightarrow> Ok ())))"
  by (simp add: CategoryLoadStrategy_load_def stage_failed_def
           split: json_file.splits prod.splits result.splits stream_end.splits)

lemma product_load_result:
  "fst (ProductLoadStrategy_load f dl) =
     (case f of
        Unreadable \<Rightarrow> Raise (DataLoaderException Product OSError)
      | Readable items fin \<Rightarrow>
          (case fst (for_each process_product items dl) of
             Raise e \<Rightarrow> Raise (DataLoaderException Product e)
           | Ok u \<Rightarrow> (case fin of BadSyntax \<Rightarrow> Raise (DataLoaderException Product JSONError)
                      | EndOfArray \<Rightarrow> Ok ())))"
  by (simp add: ProductLoadStrategy_load_def stage_failed_def
           split: json_file.splits prod.splits result.splits stream_end.splits)

lemma contact_load_result:
  "fst (ContactLoadStrategy_load f dl) =
     (case f of
        Unreadable \<Rightarrow> Raise (DataLoaderException Contact OSError)
      | Readable items fin \<Rightarrow>
          (case fst (for_each process_contact items dl) of
             Raise e \<Rightarrow> Raise (DataLoaderException Contact e)
           | Ok u \<Rightarrow> (case fin of BadSyntax \<Rightarrow> Raise (DataLoaderException Contact JSONError)
                      | EndOfArray \<Rightarrow> Ok ())))"
  by (simp add: ContactLoadStrategy_load_def stage_failed_def
           split: json_file.splits prod.splits result.splits stream_end.splits)

lemma sales_load_result:
  "fst (SalesLoadStrategy_load sf f dl) =
     (case f of
        Unreadable \<Rightarrow> Raise (DataLoaderException Sales OSError)
      | Readable items fin \<Rightarrow>
          (case fst (for_each (process_sale sf) items dl) of
             Raise e \<Rightarrow> Raise (DataLoaderException Sales e)
           | Ok u \<Rightarrow> (case fin of BadSyntax \<Rightarrow> Raise (DataLoaderException Sales JSONError)
                      | EndOfArray \<Rightarrow> Ok ())))"
  by (simp add: SalesLoadStrategy_load_def stage_failed_def
           split: json_file.splits prod.splits result.splits stream_end.splits)

text \<open>
  C9, as claimed, fails: an exception raised while transforming one record does not
  leave the stage unwrapped. A sale record whose \<^verbatim>\<open>create_date\<close> is the number 2024
  makes the transform raise \<^verbatim>\<open>AttributeError\<close>; the sales strategy catches it and
  raises \<^verbatim>\<open>DataLoaderException\<close>.
\<close>

theorem record_exception_wrapped_counterexample:
  "fst (process_sale example_float_of_str (PDict [(''create_date'', PInt 2024)]) DataLoader_init)
     = Raise AttributeError \<and>
   fst (SalesLoadStrategy_load example_float_of_str
          (Readable [PDict [(''create_date'', PInt 2024)]] EndOfArray) DataLoader_init)
     = Raise (DataLoaderException Sales AttributeError) \<and>
   fst (SalesLoadStrategy_load example_float_of_str
          (Readable [PDict [(''create_date'', PInt 2024)]] EndOfArray) DataLoader_init)
     \<noteq> Raise AttributeError"
  by (simp add: model_defs)

text \<open>
  C9, amended: each load strategy catches every exception raised inside its
  \<^verbatim>\<open>try\<close> block. An exception \<open>e\<close> raised while transforming a record ends the
  stage as \<^verbatim>\<open>DataLoaderException\<close> carrying \<open>e\<close>, just as a file that cannot be opened
  or parsed does, and no exception leaves a \<^verbatim>\<open>load\<close> other than the
  \<^verbatim>\<open>DataLoaderException\<close> of its stage.
\<close>

theorem loads_wrap_every_exception:
  "(fst (for_each process_category items dl) = Raise e \<longrightarrow>
      fst (CategoryLoadStrategy_load (Readable items fin) dl) = Raise (DataLoaderException Category e)) \<and>
   (fst (for_each process_product items dl) = Raise e \<longrightarrow>
      fst (ProductLoadStrategy_load (Readable items fin) dl) = Raise (DataLoaderException Product e)) \<and>
   (fst (for_each process_contact items dl) = Raise e \<longrightarrow>
      fst (ContactLoadStrategy_load (Readable items fin) dl) = Raise (DataLoaderException Contact e)) \<and>
   (fst (for_each (process_sale sf) items dl) = Raise e \<longrightarrow>
      fst (SalesLoadStrategy_load sf (Readable items fin) dl) = Raise (DataLoaderException Sales e)) \<and>
   (fst (CategoryLoadStrategy_load f dl) = Raise x \<longrightarrow> (\<exists>c. x = DataLoaderException Category c)) \<and>
   (fst (ProductLoadStrategy_load f dl) = Raise x \<longrightarrow> (\<exists>c. x = DataLoaderException Product c)) \<and>
   (fst (ContactLoadStrategy_load f dl) = Raise x \<longrightarrow> (\<exists>c. x = DataLoaderException Contact c)) \<and>
   (fst (SalesLoadStrategy_load sf f dl) = Raise x \<longrightarrow> (\<exists>c. x = DataLoaderException Sales c))"
  by (auto simp: category_load_result product_load_result contact_load_result sales_load_result
           split: json_file.splits result.splits stream_end.splits)

theorem loads_wrap_every_exception_witness:
  "fst (SalesLoadStrategy_load example_float_of_str
          (Readable [PDict (sale_of (PInt 2024) (PList [PInt 10, PStr ''Cola''])
                              (PList [PInt 5, PStr ''Bob'']) (PStr ''3''))] EndOfArray)
          example_store)
     = Raise (DataLoaderException Sales AttributeError) \<and>
   fst (CategoryLoadStrategy_load (Readable [PDict [(''name'', PStr ''Drinks'')]] BadSyntax)
          DataLoader_init)
     = Raise (DataLoaderException Category KeyError)"
proof -
  have a: "fst (for_each (process_sale example_float_of_str)
             [PDict (sale_of (PInt 2024) (PList [PInt 10, PStr ''Cola''])
                       (PList [PInt 5, PStr ''Bob'']) (PStr ''3''))] example_store)
           = Raise AttributeError"
    by (simp add: model_defs)
  have b: "fst (for_each process_category [PDict [(''name'', PStr ''Drinks'')]] DataLoader_init)
           = Raise KeyError"
    by (simp add: model_defs)
  from a b
    loads_wrap_every_exception
      [of "[PDict [(''name'', PStr ''Drinks'')]]" DataLoader_init KeyError BadSyntax]
    loads_wrap_every_exception
      [of _ example_store AttributeError EndOfArray example_float_of_str]
  show ?thesis by blast
qed

section \<open>The orchestrator\<close>

text \<open>
  C8: \<open>initialize_data\<close> runs the stages in the order categories, products,
  contacts, sales, each on the store left by the one before. When a stage raises (always
  a \<^verbatim>\<open>DataLoaderException\<close>), \<open>initialize_data\<close> raises that same exception, and the
  store and the log it leaves are those of the failing stage plus the single line
  \<^verbatim>\<open>Failed to load ...\<close>: no later stage has run. It returns normally if and only
  if all four stages did.
\<close>

theorem initialize_data_stops_at_first_failure:
  fixes sf folder dl
  defines "s0 \<equiv> dl\<lparr>app_log := app_log dl @ [StartingInit]\<rparr>"
  defines "r1 \<equiv> CategoryLoadStrategy_load (categories_json folder) s0"
  defines "r2 \<equiv> ProductLoadStrategy_load (products_json folder) (snd r1)"
  defines "r3 \<equiv> ContactLoadStrategy_load (contacts_json folder) (snd r2)"
  defines "r4 \<equiv> SalesLoadStrategy_load sf (sale_order_lines_json folder) (snd r3)"
  shows "(fst r1 = Raise e \<longrightarrow>
            initialize_data sf folder dl =
              (Raise e, (snd r1)\<lparr>app_log := app_log (snd r1) @ [FailedToLoad ''categories'' e]\<rparr>)) \<and>
         (fst r1 = Ok () \<and> fst r2 = Raise e \<longrightarrow>
            initialize_data sf folder dl =
              (Raise e, (snd r2)\<lparr>app_log := app_log (snd r2) @ [FailedToLoad ''products'' e]\<rparr>)) \<and>
         (fst r1 = Ok () \<and> fst r2 = Ok () \<and> fst r3 = Raise e \<longrightarrow>
            initialize_data sf folder dl =
              (Raise e, (snd r3)\<lparr>app_log := app_log (snd r3) @ [FailedToLoad ''contacts'' e]\<rparr>)) \<and>
         (fst r1 = Ok () \<and> fst r2 = Ok () \<and> fst r3 = Ok () \<and> fst r4 = Raise e \<longrightarrow>
            initialize_data sf folder dl =
              (Raise e, (snd r4)\<lparr>app_log := app_log (snd r4) @ [FailedToLoad ''sales'' e]\<rparr>)) \<and>
         (fst r1 = Ok () \<and> fst r2 = Ok () \<and> fst r3 = Ok () \<and> fst r4 = Ok () \<longrightarrow>
            initialize_data sf folder dl =
              (Ok (), (snd r4)\<lparr>app_log := app_log (snd r4) @ [DataSummary]\<rparr>)) \<and>
         (fst (initialize_data sf folder dl) = Ok () \<longleftrightarrow>
            fst r1 = Ok () \<and> fst r2 = Ok () \<and> fst r3 = Ok () \<and> fst r4 = Ok ())"
proof -
  have w1: "\<exists>c. x = DataLoaderException Category c" if "fst r1 = Raise x" for x
    using that unfolding r1_def
    by (auto simp: category_load_result split: json_file.splits result.splits stream_end.splits)
  have w2: "\<exists>c. x = DataLoaderException Product c" if "fst r2 = Raise x" for x
    using that unfolding r2_def
    by (auto simp: product_load_result split: json_file.splits result.splits stream_end.splits)
  have w3: "\<exists>c. x = DataLoaderException Contact c" if "fst r3 = Raise x" for x
    using that unfolding r3_def
    by (auto simp: contact_load_result split: json_file.splits result.splits stream_end.splits)
  have w4: "\<exists>c. x = DataLoaderException Sales c" if "fst r4 = Raise x" for x
    using that unfolding r4_def
    by (auto simp: sales_load_result split: json_file.splits result.splits stream_end.splits)
  have l1: "load_data sf folder ''categories'' s0 = r1"
    and l2: "load_data sf folder ''products'' (snd r1) = r2"
    and l3: "load_data sf folder ''contacts'' (snd r2) = r3"
    and l4: "load_data sf folder ''sales'' (snd r3) = r4"
    by (simp_all add: load_data_def get_loader_def r1_def r2_def r3_def r4_def)
  obtain a1 d1 where p1: "r1 = (a1, d1)" by (cases r1)
  obtain a2 d2 where p2: "r2 = (a2, d2)" by (cases r2)
  obtain a3 d3 where p3: "r3 = (a3, d3)" by (cases r3)
  obtain a4 d4 where p4: "r4 = (a4, d4)" by (cases r4)
  show ?thesis
    using w1 w2 w3 w4 l1 l2 l3 l4 
    unfolding initialize_data_def s0_def [symmetric] p1 p2 p3 p4
    by (cases a1; cases a2; cases a3; cases a4) (auto simp: p1 p2 p3 p4)
qed

text \<open>
  The theorem on the example folder with an unreadable products file, and on the
  example folder itself.
\<close>

theorem initialize_data_stops_at_first_failure_witness:
  "fst (initialize_data example_float_of_str
          (example_folder\<lparr>products_json := Unreadable\<rparr>) DataLoader_init)
     = Raise (DataLoaderException Product OSError) \<and>
   app_log (snd (initialize_data example_float_of_str
          (example_folder\<lparr>products_json := Unreadable\<rparr>) DataLoader_init))
     = [StartingInit, Loaded Category, LoadError Product OSError,
        FailedToLoad ''products'' (DataLoaderException Product OSError)] \<and>
   contacts (snd (initialize_data example_float_of_str
          (example_folder\<lparr>products_json := Unreadable\<rparr>) DataLoader_init)) = Map.empty \<and>
   fst (initialize_data example_float_of_str example_folder DataLoader_init) = Ok ()"
proof -
  let ?bad = "example_folder\<lparr>products_json := Unreadable\<rparr>"
  let ?s0 = "DataLoader_init\<lparr>app_log := app_log DataLoader_init @ [StartingInit]\<rparr>"
  let ?r1 = "CategoryLoadStrategy_load (categories_json ?bad) ?s0"
  let ?r2 = "ProductLoadStrategy_load (products_json ?bad) (snd ?r1)"
  have h: "fst ?r1 = Ok () \<and> fst ?r2 = Raise (DataLoaderException Product OSError)"
    by (simp add: model_defs Let_def)
  have v: "app_log (snd ?r2) = [StartingInit, Loaded Category, LoadError Product OSError]"
     "contacts (snd ?r2) = Map.empty"
    by (simp_all add: model_defs Let_def)
  have g: "fst (CategoryLoadStrategy_load (categories_json example_folder) ?s0) = Ok () \<and>
     fst (ProductLoadStrategy_load (products_json example_folder)
       (snd (CategoryLoadStrategy_load (categories_json example_folder) ?s0))) = Ok () \<and>
     fst (ContactLoadStrategy_load (contacts_json example_folder)
       (snd (ProductLoadStrategy_load (products_json example_folder)
         (snd (CategoryLoadStrategy_load (categories_json example_folder) ?s0))))) = Ok () \<and>
     fst (SalesLoadStrategy_load example_float_of_str (sale_order_lines_json example_folder)
       (snd (ContactLoadStrategy_load (contacts_json example_folder)
         (snd (ProductLoadStrategy_load (products_json example_folder)
           (snd (CategoryLoadStrategy_load (categories_json example_folder) ?s0))))))) = Ok ()"
    by (simp add: model_defs Let_def)
  from initialize_data_stops_at_first_failure
         [of ?bad DataLoader_init "DataLoaderException Product OSError" example_float_of_str] h
  have 1: "initialize_data example_float_of_str ?bad DataLoader_init =
     (Raise (DataLoaderException Product OSError),
      (snd ?r2)\<lparr>app_log := app_log (snd ?r2) @
         [FailedToLoad ''products'' (DataLoaderException Product OSError)]\<rparr>)"
    by blast
  from initialize_data_stops_at_first_failure
         [of example_folder DataLoader_init _ example_float_of_str] g
  have 2: "fst (initialize_data example_float_of_str example_folder DataLoader_init) = Ok ()"
    by blast
  from 1 2 v show ?thesis by simp
qed

section \<open>Running the initialization twice\<close>

text \<open>
  \<open>initialize_data\<close> does not reset the store: it runs the four stages on the tables
  it finds. A stage that succeeds acts on every store in the same way: the category,
  product and contact stages add fixed maps to their tables (the later record wins;
  for the country codes the earlier one), and the sales stage adds a fixed list of
  pairs to \<^verbatim>\<open>client_products\<close> as long as the two lookup tables are the same.
\<close>

lemma upd_add: "m ++ ([k \<mapsto> v] ++ n) = m(k \<mapsto> v) ++ n"
  by (rule ext) (simp add: map_add_def split: option.splits)

lemma map_add_absorb: "(m ++ n) ++ n = m ++ n"
  by (rule ext) (simp add: map_add_def split: option.splits)

lemma map_add_self: "n ++ n = n"
  by (rule ext) (simp add: map_add_def split: option.splits)

lemma for_each_Ok_Cons:
  assumes "fst (for_each step (x # xs) d) = Ok ()"
  shows "\<exists>r. fst (step x d) = Ok r" and "fst (for_each step xs (snd (step x d))) = Ok ()"
  using assms by (auto split: prod.splits result.splits)

lemma process_category_form:
  assumes "fst (process_category x d) = Ok ()"
  shows "\<exists>k e. \<forall>d0. process_category x d0 =
           (Ok (), d0\<lparr>categories := (categories d0)(k \<mapsto> x),
                      category_index := (category_index d0)(k \<mapsto> e)\<rparr>)"
proof -
  from assms obtain kvs where x: "x = PDict kvs"
    by (cases x) (simp_all add: process_category_def)
  from assms x obtain cid where cid: "dict_item kvs ''id'' = Ok cid"
    by (cases "dict_item kvs ''id''") (simp_all add: process_category_def Let_def)
  from assms x cid obtain k where k: "hash_key cid = Ok k"
    by (cases "hash_key cid") (simp_all add: process_category_def Let_def)
  from assms x cid k obtain nm where nm: "dict_item kvs ''name'' = Ok nm"
    by (cases "dict_item kvs ''name''") (simp_all add: process_category_def Let_def)
  define e where "e = IndexEntry nm
     (if (case dict_get kvs ''parent_id'' PNone of PBool b \<Rightarrow> b | _ \<Rightarrow> False)
      then Some ''No Parent'' else None)"
  have "\<forall>d0. process_category x d0 =
           (Ok (), d0\<lparr>categories := (categories d0)(k \<mapsto> x),
                      category_index := (category_index d0)(k \<mapsto> e)\<rparr>)"
    by (simp add: process_category_def Let_def x cid k nm e_def)
  then show ?thesis by blast
qed

lemma for_each_category_form:
  assumes "fst (for_each process_category xs d) = Ok ()"
  shows "\<exists>M I. \<forall>d0. for_each process_category xs d0 =
           (Ok (), d0\<lparr>categories := categories d0 ++ M,
                      category_index := category_index d0 ++ I\<rparr>)"
  using assms
proof (induction xs arbitrary: d)
  case Nil
  have "\<forall>d0. for_each process_category [] d0 =
           (Ok (), d0\<lparr>categories := categories d0 ++ Map.empty,
                      category_index := category_index d0 ++ Map.empty\<rparr>)"
    by simp
  then show ?case by blast
next
  case (Cons x xs)
  from for_each_Ok_Cons [OF Cons.prems]
  have s: "fst (process_category x d) = Ok ()"
    and t: "fst (for_each process_category xs (snd (process_category x d))) = Ok ()"
    by auto
  from process_category_form [OF s] obtain k e where
    f: "\<And>d0. process_category x d0 =
           (Ok (), d0\<lparr>categories := (categories d0)(k \<mapsto> x),
                      category_index := (category_index d0)(k \<mapsto> e)\<rparr>)"
    by blast
  from Cons.IH [OF t] obtain M I where
    g: "\<And>d0. for_each process_category xs d0 =
           (Ok (), d0\<lparr>categories := categories d0 ++ M,
                      category_index := category_index d0 ++ I\<rparr>)"
    by blast
  have "\<forall>d0. for_each process_category (x # xs) d0 =
           (Ok (), d0\<lparr>categories := categories d0 ++ ([k \<mapsto> x] ++ M),
                      category_index := category_index d0 ++ ([k \<mapsto> e] ++ I)\<rparr>)"
    by (simp add: f g upd_add)
  then show ?case by blast
qed

lemma category_load_form:
  assumes "fst (CategoryLoadStrategy_load f d) = Ok ()"
  shows "\<exists>M I. \<forall>d0. CategoryLoadStrategy_load f d0 =
           (Ok (), d0\<lparr>categories := categories d0 ++ M,
                      category_index := category_index d0 ++ I,
                      app_log := app_log d0 @ [Loaded Category]\<rparr>)"
proof (cases f)
  case Unreadable
  with assms show ?thesis by (simp add: CategoryLoadStrategy_load_def stage_failed_def)
next
  case (Readable xs fin)
  with assms have ok: "fst (for_each process_category xs d) = Ok ()" and fin: "fin = EndOfArray"
    by (auto simp: CategoryLoadStrategy_load_def stage_failed_def
             split: prod.splits result.splits stream_end.splits)
  from for_each_category_form [OF ok] obtain M I where
    g: "\<And>d0. for_each process_category xs d0 =
           (Ok (), d0\<lparr>categories := categories d0 ++ M,
                      category_index := category_index d0 ++ I\<rparr>)"
    by blast
  have "\<forall>d0. CategoryLoadStrategy_load f d0 =
           (Ok (), d0\<lparr>categories := categories d0 ++ M,
                      category_index := category_index d0 ++ I,
                      app_log := app_log d0 @ [Loaded Category]\<rparr>)"
    by (simp add: CategoryLoadStrategy_load_def Readable fin g)
  then show ?thesis by blast
qed


lemma single_add_present: "m n = Some v \<Longrightarrow> [n \<mapsto> c] ++ m = m"
  by (rule ext) (simp add: map_add_def split: option.splits)

lemma single_add_absent: "m n = None \<Longrightarrow> [n \<mapsto> c] ++ m = m(n \<mapsto> c)"
  by (rule ext) (simp add: map_add_def split: option.splits)

lemma upd_add_left: "(n ++ [k \<mapsto> v]) ++ m = n ++ ([k \<mapsto> v] ++ m)"
  by simp

lemma process_product_form:
  assumes "fst (process_product x d) = Ok ()"
  shows "\<exists>k P. \<forall>d0. process_product x d0 =
           (Ok (), d0\<lparr>products := (products d0)(k \<mapsto> x),
                      product_category_map := product_category_map d0 ++ P\<rparr>)"
proof -
  from assms obtain kvs where x: "x = PDict kvs"
    by (cases x) (simp_all add: process_product_def)
  from assms x obtain pid where pid: "dict_item kvs ''id'' = Ok pid"
    by (cases "dict_item kvs ''id''") (simp_all add: process_product_def Let_def)
  from assms x pid obtain k where k: "hash_key pid = Ok k"
    by (cases "hash_key pid") (simp_all add: process_product_def Let_def)
  define P where "P = (case dict_get kvs ''categ_id'' PNone of
       PList xs \<Rightarrow> [k \<mapsto> CategoryRef (if length xs > 0 then xs ! 0 else PNone)
                          (if length xs > 1 then xs ! 1 else PStr ''Unnamed Category'')]
     | _ \<Rightarrow> Map.empty)"
  have "\<forall>d0. process_product x d0 =
           (Ok (), d0\<lparr>products := (products d0)(k \<mapsto> x),
                      product_category_map := product_category_map d0 ++ P\<rparr>)"
    by (simp add: process_product_def Let_def x pid k P_def split: pyval.splits)
  then show ?thesis by blast
qed

lemma for_each_product_form:
  assumes "fst (for_each process_product xs d) = Ok ()"
  shows "\<exists>M P. \<forall>d0. for_each process_product xs d0 =
           (Ok (), d0\<lparr>products := products d0 ++ M,
                      product_category_map := product_category_map d0 ++ P\<rparr>)"
  using assms
proof (induction xs arbitrary: d)
  case Nil
  have "\<forall>d0. for_each process_product [] d0 =
           (Ok (), d0\<lparr>products := products d0 ++ Map.empty,
                      product_category_map := product_category_map d0 ++ Map.empty\<rparr>)"
    by simp
  then show ?case by blast
next
  case (Cons x xs)
  from for_each_Ok_Cons [OF Cons.prems]
  have s: "fst (process_product x d) = Ok ()"
    and t: "fst (for_each process_product xs (snd (process_product x d))) = Ok ()"
    by auto
  from process_product_form [OF s] obtain k P1 where
    f: "\<And>d0. process_product x d0 =
           (Ok (), d0\<lparr>products := (products d0)(k \<mapsto> x),
                      product_category_map := product_category_map d0 ++ P1\<rparr>)"
    by blast
  from Cons.IH [OF t] obtain M P where
    g: "\<And>d0. for_each process_product xs d0 =
           (Ok (), d0\<lparr>products := products d0 ++ M,
                      product_category_map := product_category_map d0 ++ P\<rparr>)"
    by blast
  have "\<forall>d0. for_each process_product (x # xs) d0 =
           (Ok (), d0\<lparr>products := products d0 ++ ([k \<mapsto> x] ++ M),
                      product_category_map := product_category_map d0 ++ (P1 ++ P)\<rparr>)"
    by (simp add: f g upd_add)
  then show ?case by blast
qed

lemma product_load_form:
  assumes "fst (ProductLoadStrategy_load f d) = Ok ()"
  shows "\<exists>M P. \<forall>d0. ProductLoadStrategy_load f d0 =
           (Ok (), d0\<lparr>products := products d0 ++ M,
                      product_category_map := product_category_map d0 ++ P,
                      app_log := app_log d0 @ [Loaded Product]\<rparr>)"
proof (cases f)
  case Unreadable
  with assms show ?thesis by (simp add: ProductLoadStrategy_load_def stage_failed_def)
next
  case (Readable xs fin)
  with assms have ok: "fst (for_each process_product xs d) = Ok ()" and fin: "fin = EndOfArray"
    by (auto simp: ProductLoadStrategy_load_def stage_failed_def
             split: prod.splits result.splits stream_end.splits)
  from for_each_product_form [OF ok] obtain M P where
    g: "\<And>d0. for_each process_product xs d0 =
           (Ok (), d0\<lparr>products := products d0 ++ M,
                      product_category_map := product_category_map d0 ++ P\<rparr>)"
    by blast
  have "\<forall>d0. ProductLoadStrategy_load f d0 =
           (Ok (), d0\<lparr>products := products d0 ++ M,
                      product_category_map := product_category_map d0 ++ P,
                      app_log := app_log d0 @ [Loaded Product]\<rparr>)"
    by (simp add: ProductLoadStrategy_load_def Readable fin g)
  then show ?thesis by blast
qed

lemma process_contact_form:
  assumes "fst (process_contact x d) = Ok ()"
  shows "\<exists>k C N. \<forall>d0. \<exists>lg. process_contact x d0 =
           (Ok (), d0\<lparr>contacts := (contacts d0)(k \<mapsto> x),
                      contact_country_map := contact_country_map d0 ++ C,
                      country_code_map := N ++ country_code_map d0,
                      app_log := lg\<rparr>)"
proof -
  from assms obtain kvs where x: "x = PDict kvs"
    by (cases x) (simp_all add: process_contact_def)
  from assms x obtain cid where cid: "dict_item kvs ''id'' = Ok cid"
    by (cases "dict_item kvs ''id''") (simp_all add: process_contact_def Let_def)
  from assms x cid obtain k where k: "hash_key cid = Ok k"
    by (cases "hash_key cid") (simp_all add: process_contact_def Let_def)
  show ?thesis
  proof (cases "\<exists>xs. dict_get kvs ''country_id'' PNone = PList xs \<and> length xs > 1")
    case False
    have "\<forall>d0. \<exists>lg. process_contact x d0 =
           (Ok (), d0\<lparr>contacts := (contacts d0)(k \<mapsto> x),
                      contact_country_map := contact_country_map d0 ++ Map.empty,
                      country_code_map := Map.empty ++ country_code_map d0,
                      app_log := lg\<rparr>)"
    proof
      fix d0
      have "process_contact x d0 =
           (Ok (), d0\<lparr>contacts := (contacts d0)(k \<mapsto> x),
                      contact_country_map := contact_country_map d0 ++ Map.empty,
                      country_code_map := Map.empty ++ country_code_map d0,
                      app_log := app_log d0\<rparr>)"
        using False
        by (auto simp: process_contact_def Let_def x cid k split: pyval.splits)
      then show "\<exists>lg. process_contact x d0 =
           (Ok (), d0\<lparr>contacts := (contacts d0)(k \<mapsto> x),
                      contact_country_map := contact_country_map d0 ++ Map.empty,
                      country_code_map := Map.empty ++ country_code_map d0,
                      app_log := lg\<rparr>)"
        by blast
    qed
    then show ?thesis by blast
  next
    case True
    then obtain xs where xs: "dict_get kvs ''country_id'' PNone = PList xs" "length xs > 1"
      by blast
    from assms x cid k xs obtain n where n: "hash_key (xs ! 1) = Ok n"
      by (cases "hash_key (xs ! 1)") (simp_all add: process_contact_def Let_def)
    have "\<forall>d0. \<exists>lg. process_contact x d0 =
           (Ok (), d0\<lparr>contacts := (contacts d0)(k \<mapsto> x),
                      contact_country_map := contact_country_map d0 ++ [k \<mapsto> CountryRef (xs ! 0) (xs ! 1)],
                      country_code_map := [n \<mapsto> xs ! 0] ++ country_code_map d0,
                      app_log := lg\<rparr>)"
    proof
      fix d0
      show "\<exists>lg. process_contact x d0 =
           (Ok (), d0\<lparr>contacts := (contacts d0)(k \<mapsto> x),
                      contact_country_map := contact_country_map d0 ++ [k \<mapsto> CountryRef (xs ! 0) (xs ! 1)],
                      country_code_map := [n \<mapsto> xs ! 0] ++ country_code_map d0,
                      app_log := lg\<rparr>)"
      proof (cases "country_code_map d0 n")
        case None
        with xs n have "process_contact x d0 =
           (Ok (), d0\<lparr>contacts := (contacts d0)(k \<mapsto> x),
                      contact_country_map := contact_country_map d0 ++ [k \<mapsto> CountryRef (xs ! 0) (xs ! 1)],
                      country_code_map := [n \<mapsto> xs ! 0] ++ country_code_map d0,
                      app_log := app_log d0\<rparr>)"
          by (simp add: process_contact_def Let_def x cid k single_add_absent)
        then show ?thesis by blast
      next
        case (Some existing)
        then have "process_contact x d0 =
           (Ok (), d0\<lparr>contacts := (contacts d0)(k \<mapsto> x),
                      contact_country_map := contact_country_map d0 ++ [k \<mapsto> CountryRef (xs ! 0) (xs ! 1)],
                      country_code_map := [n \<mapsto> xs ! 0] ++ country_code_map d0,
                      app_log := (if \<not> py_eq existing (xs ! 0)
                                  then app_log d0 @ [CountryCodeConflict (xs ! 1) existing (xs ! 0)]
                                  else app_log d0)\<rparr>)"
          using xs n by (simp add: process_contact_def Let_def x cid k single_add_present)
        then show ?thesis by blast
      qed
    qed
    then show ?thesis by blast
  qed
qed


lemma for_each_contact_form:
  assumes "fst (for_each process_contact xs d) = Ok ()"
  shows "\<exists>M C N. \<forall>d0. \<exists>lg. for_each process_contact xs d0 =
           (Ok (), d0\<lparr>contacts := contacts d0 ++ M,
                      contact_country_map := contact_country_map d0 ++ C,
                      country_code_map := N ++ country_code_map d0,
                      app_log := lg\<rparr>)"
  using assms
proof (induction xs arbitrary: d)
  case Nil
  have "\<forall>d0. \<exists>lg. for_each process_contact [] d0 =
           (Ok (), d0\<lparr>contacts := contacts d0 ++ Map.empty,
                      contact_country_map := contact_country_map d0 ++ Map.empty,
                      country_code_map := Map.empty ++ country_code_map d0,
                      app_log := lg\<rparr>)"
  proof
    fix d0
    have "for_each process_contact [] d0 =
           (Ok (), d0\<lparr>contacts := contacts d0 ++ Map.empty,
                      contact_country_map := contact_country_map d0 ++ Map.empty,
                      country_code_map := Map.empty ++ country_code_map d0,
                      app_log := app_log d0\<rparr>)"
      by simp
    then show "\<exists>lg. for_each process_contact [] d0 =
           (Ok (), d0\<lparr>contacts := contacts d0 ++ Map.empty,
                      contact_country_map := contact_country_map d0 ++ Map.empty,
                      country_code_map := Map.empty ++ country_code_map d0,
                      app_log := lg\<rparr>)"
      by blast
  qed
  then show ?case by blast
next
  case (Cons x xs)
  from for_each_Ok_Cons [OF Cons.prems]
  have s: "fst (process_contact x d) = Ok ()"
    and t: "fst (for_each process_contact xs (snd (process_contact x d))) = Ok ()"
    by auto
  from process_contact_form [OF s] obtain k C1 N1 where
    f: "\<And>d0. \<exists>lg. process_contact x d0 =
           (Ok (), d0\<lparr>contacts := (contacts d0)(k \<mapsto> x),
                      contact_country_map := contact_country_map d0 ++ C1,
                      country_code_map := N1 ++ country_code_map d0,
                      app_log := lg\<rparr>)"
    by blast
  from Cons.IH [OF t] obtain M C N where
    g: "\<And>d0. \<exists>lg. for_each process_contact xs d0 =
           (Ok (), d0\<lparr>contacts := contacts d0 ++ M,
                      contact_country_map := contact_country_map d0 ++ C,
                      country_code_map := N ++ country_code_map d0,
                      app_log := lg\<rparr>)"
    by blast
  have "\<forall>d0. \<exists>lg. for_each process_contact (x # xs) d0 =
           (Ok (), d0\<lparr>contacts := contacts d0 ++ ([k \<mapsto> x] ++ M),
                      contact_country_map := contact_country_map d0 ++ (C1 ++ C),
                      country_code_map := (N ++ N1) ++ country_code_map d0,
                      app_log := lg\<rparr>)"
  proof
    fix d0
    from f [of d0] obtain lg1 where
      1: "process_contact x d0 =
           (Ok (), d0\<lparr>contacts := (contacts d0)(k \<mapsto> x),
                      contact_country_map := contact_country_map d0 ++ C1,
                      country_code_map := N1 ++ country_code_map d0,
                      app_log := lg1\<rparr>)"
      by blast
    from g [of "d0\<lparr>contacts := (contacts d0)(k \<mapsto> x),
                      contact_country_map := contact_country_map d0 ++ C1,
                      country_code_map := N1 ++ country_code_map d0,
                      app_log := lg1\<rparr>"]
    obtain lg2 where
      2: "for_each process_contact xs
            (d0\<lparr>contacts := (contacts d0)(k \<mapsto> x),
                      contact_country_map := contact_country_map d0 ++ C1,
                      country_code_map := N1 ++ country_code_map d0,
                      app_log := lg1\<rparr>) =
           (Ok (), d0\<lparr>contacts := (contacts d0)(k \<mapsto> x) ++ M,
                      contact_country_map := (contact_country_map d0 ++ C1) ++ C,
                      country_code_map := N ++ (N1 ++ country_code_map d0),
                      app_log := lg2\<rparr>)"
      by auto
    have "for_each process_contact (x # xs) d0 =
           (Ok (), d0\<lparr>contacts := contacts d0 ++ ([k \<mapsto> x] ++ M),
                      contact_country_map := contact_country_map d0 ++ (C1 ++ C),
                      country_code_map := (N ++ N1) ++ country_code_map d0,
                      app_log := lg2\<rparr>)"
      by (simp add: 1 2 upd_add)
    then show "\<exists>lg. for_each process_contact (x # xs) d0 =
           (Ok (), d0\<lparr>contacts := contacts d0 ++ ([k \<mapsto> x] ++ M),
                      contact_country_map := contact_country_map d0 ++ (C1 ++ C),
                      country_code_map := (N ++ N1) ++ country_code_map d0,
                      app_log := lg\<rparr>)"
      by blast
  qed
  then show ?case by blast
qed

lemma contact_load_form:
  assumes "fst (ContactLoadStrategy_load f d) = Ok ()"
  shows "\<exists>M C N. \<forall>d0. \<exists>lg. ContactLoadStrategy_load f d0 =
           (Ok (), d0\<lparr>contacts := contacts d0 ++ M,
                      contact_country_map := contact_country_map d0 ++ C,
                      country_code_map := N ++ country_code_map d0,
                      app_log := lg\<rparr>)"
proof (cases f)
  case Unreadable
  with assms show ?thesis by (simp add: ContactLoadStrategy_load_def stage_failed_def)
next
  case (Readable xs fin)
  with assms have ok: "fst (for_each process_contact xs d) = Ok ()" and fin: "fin = EndOfArray"
    by (auto simp: ContactLoadStrategy_load_def stage_failed_def
             split: prod.splits result.splits stream_end.splits)
  from for_each_contact_form [OF ok] obtain M C N where
    g: "\<And>d0. \<exists>lg. for_each process_contact xs d0 =
           (Ok (), d0\<lparr>contacts := contacts d0 ++ M,
                      contact_country_map := contact_country_map d0 ++ C,
                      country_code_map := N ++ country_code_map d0,
                      app_log := lg\<rparr>)"
    by blast
  have "\<forall>d0. \<exists>lg. ContactLoadStrategy_load f d0 =
           (Ok (), d0\<lparr>contacts := contacts d0 ++ M,
                      contact_country_map := contact_country_map d0 ++ C,
                      country_code_map := N ++ country_code_map d0,
                      app_log := lg\<rparr>)"
  proof
    fix d0
    from g [of d0] obtain lg where
      1: "for_each process_contact xs d0 =
           (Ok (), d0\<lparr>contacts := contacts d0 ++ M,
                      contact_country_map := contact_country_map d0 ++ C,
                      country_code_map := N ++ country_code_map d0,
                      app_log := lg\<rparr>)"
      by blast
    have "ContactLoadStrategy_load f d0 =
           (Ok (), d0\<lparr>contacts := contacts d0 ++ M,
                      contact_country_map := contact_country_map d0 ++ C,
                      country_code_map := N ++ country_code_map d0,
                      app_log := lg @ [Loaded Contact]\<rparr>)"
      by (simp add: ContactLoadStrategy_load_def Readable fin 1)
    then show "\<exists>lg. ContactLoadStrategy_load f d0 =
           (Ok (), d0\<lparr>contacts := contacts d0 ++ M,
                      contact_country_map := contact_country_map d0 ++ C,
                      country_code_map := N ++ country_code_map d0,
                      app_log := lg\<rparr>)"
      by blast
  qed
  then show ?thesis by blast
qed


lemma add_members_Nil: "add_members [] m = m"
  by (simp add: add_members_def)

lemma add_members_Cons: "add_members (cp # ps) m = add_members ps (add_member m (fst cp) (snd cp))"
  by (simp add: add_members_def)

lemma add_members_append: "add_members (ps @ qs) m = add_members qs (add_members ps m)"
  by (simp add: add_members_def)

lemma is_member_add_member: "is_member (add_member m c p) c p"
  by (simp add: is_member_def add_member_def)

lemma is_member_kept: "is_member m c p \<Longrightarrow> is_member (add_member m c' p') c p"
  by (auto simp: is_member_def add_member_def split: option.splits)

lemma add_member_absorbed: "is_member m c p \<Longrightarrow> add_member m c p = m"
  by (rule ext) (auto simp: is_member_def add_member_def split: option.splits)

lemma is_member_add_members: "is_member m c p \<Longrightarrow> is_member (add_members ps m) c p"
  by (induction ps arbitrary: m) (simp_all add: add_members_Nil add_members_Cons is_member_kept)

lemma add_members_absorbed:
  "list_all (\<lambda>cp. is_member m (fst cp) (snd cp)) ps \<Longrightarrow> add_members ps m = m"
  by (induction ps) (simp_all add: add_members_Nil add_members_Cons add_member_absorbed)

lemma add_members_all_members:
  "list_all (\<lambda>cp. is_member (add_members ps m) (fst cp) (snd cp)) ps"
proof (induction ps arbitrary: m)
  case Nil
  show ?case by simp
next
  case (Cons cp ps)
  have "is_member (add_members ps (add_member m (fst cp) (snd cp))) (fst cp) (snd cp)"
    by (rule is_member_add_members) (rule is_member_add_member)
  with Cons show ?case by (simp add: add_members_Cons)
qed

lemma add_members_twice: "add_members ps (add_members ps m) = add_members ps m"
  by (rule add_members_absorbed) (rule add_members_all_members)

lemma validate_numeric_fst:
  "fst (validate_numeric sf v dflt lg) = fst (validate_numeric sf v dflt lg')"
  by (simp add: validate_numeric_cases split: result.splits)

lemma process_sale_keeps_tables:
  "categories (snd (process_sale sf x d)) = categories d"
  "products (snd (process_sale sf x d)) = products d"
  "contacts (snd (process_sale sf x d)) = contacts d"
  "category_index (snd (process_sale sf x d)) = category_index d"
  "product_category_map (snd (process_sale sf x d)) = product_category_map d"
  "contact_country_map (snd (process_sale sf x d)) = contact_country_map d"
  "country_code_map (snd (process_sale sf x d)) = country_code_map d"
  by (auto simp: process_sale_def Let_def split: pyval.splits result.splits prod.splits)


lemma process_sale_fst_agree:
  assumes "product_category_map d0 = product_category_map d"
    and "contact_country_map d0 = contact_country_map d"
  shows "fst (process_sale sf x d0) = fst (process_sale sf x d)"
  using assms
  by (auto simp: process_sale_def Let_def validate_numeric_cases
           split: pyval.splits result.splits prod.splits)

lemma process_sale_clients:
  "\<exists>S. \<forall>d. client_products (snd (process_sale sf x d)) =
     (if fst (process_sale sf x d) = Ok True then add_members S (client_products d)
      else client_products d)"
proof (cases x)
  case (PDict kvs)
  define cust where "cust = extract_id (dict_get kvs ''order_partner_id'' PNone)"
  define prod where "prod = extract_id (dict_get kvs ''product_id'' PNone)"
  define S where "S =
    (case hash_key cust of
       Raise e \<Rightarrow> []
     | Ok ck \<Rightarrow> (case hash_key prod of
                   Raise e \<Rightarrow> []
                 | Ok pk \<Rightarrow> if truthy cust then [(ck, pk)] else []))"
  have "\<forall>d. client_products (snd (process_sale sf x d)) =
     (if fst (process_sale sf x d) = Ok True then add_members S (client_products d)
      else client_products d)"
    unfolding S_def cust_def prod_def
    by (auto simp: process_sale_def Let_def validate_numeric_cases PDict add_members_def
             split: pyval.splits result.splits prod.splits)
  then show ?thesis by blast
qed (simp_all add: process_sale_def)


lemma for_each_sale_keeps_tables:
  "categories (snd (for_each (process_sale sf) xs d)) = categories d \<and>
   products (snd (for_each (process_sale sf) xs d)) = products d \<and>
   contacts (snd (for_each (process_sale sf) xs d)) = contacts d \<and>
   category_index (snd (for_each (process_sale sf) xs d)) = category_index d \<and>
   product_category_map (snd (for_each (process_sale sf) xs d)) = product_category_map d \<and>
   contact_country_map (snd (for_each (process_sale sf) xs d)) = contact_country_map d \<and>
   country_code_map (snd (for_each (process_sale sf) xs d)) = country_code_map d"
proof (induction xs arbitrary: d)
  case Nil
  show ?case by simp
next
  case (Cons x xs)
  obtain a e where r: "process_sale sf x d = (a, e)" by (cases "process_sale sf x d")
  from process_sale_keeps_tables [of sf x d] r
  have k: "categories e = categories d" "products e = products d" "contacts e = contacts d"
    "category_index e = category_index d" "product_category_map e = product_category_map d"
    "contact_country_map e = contact_country_map d" "country_code_map e = country_code_map d"
    by simp_all
  show ?case
  proof (cases a)
    case (Ok b)
    with r Cons.IH [of e] k show ?thesis by simp
  next
    case (Raise ex)
    with r k show ?thesis by simp
  qed
qed

lemma for_each_sale_agree:
  assumes "product_category_map d0 = product_category_map d"
    and "contact_country_map d0 = contact_country_map d"
  shows "fst (for_each (process_sale sf) xs d0) = fst (for_each (process_sale sf) xs d) \<and>
         (\<exists>S. client_products (snd (for_each (process_sale sf) xs d0)) =
                 add_members S (client_products d0) \<and>
               client_products (snd (for_each (process_sale sf) xs d)) =
                 add_members S (client_products d))"
  using assms
proof (induction xs arbitrary: d0 d)
  case Nil
  have "client_products d0 = add_members [] (client_products d0) \<and>
        client_products d = add_members [] (client_products d)"
    by (simp add: add_members_Nil)
  then show ?case by auto
next
  case (Cons x xs)
  obtain a0 e0 where r0: "process_sale sf x d0 = (a0, e0)" by (cases "process_sale sf x d0")
  obtain a e where r: "process_sale sf x d = (a, e)" by (cases "process_sale sf x d")
  from process_sale_fst_agree [OF Cons.prems, of sf x] r0 r have aa: "a0 = a" by simp
  from process_sale_clients [of sf x] obtain Sx where
    sx: "\<And>d. client_products (snd (process_sale sf x d)) =
     (if fst (process_sale sf x d) = Ok True then add_members Sx (client_products d)
      else client_products d)"
    by blast
  define S1 where "S1 = (if a = Ok True then Sx else [])"
  have c0: "client_products e0 = add_members S1 (client_products d0)"
    using sx [of d0] r0 aa by (simp add: S1_def add_members_Nil)
  have c: "client_products e = add_members S1 (client_products d)"
    using sx [of d] r by (simp add: S1_def add_members_Nil)
  show ?case
  proof (cases a)
    case (Raise ex)
    with r0 r aa c0 c show ?thesis by auto
  next
    case (Ok b)
    from process_sale_keeps_tables [of sf x d0] process_sale_keeps_tables [of sf x d] r0 r Cons.prems
    have t: "product_category_map e0 = product_category_map e"
      "contact_country_map e0 = contact_country_map e"
      by simp_all
    from Cons.IH [OF t] obtain S2 where
      f: "fst (for_each (process_sale sf) xs e0) = fst (for_each (process_sale sf) xs e)"
      and s0: "client_products (snd (for_each (process_sale sf) xs e0)) =
                 add_members S2 (client_products e0)"
      and s: "client_products (snd (for_each (process_sale sf) xs e)) =
                 add_members S2 (client_products e)"
      by blast
    have "client_products (snd (for_each (process_sale sf) (x # xs) d0)) =
            add_members (S1 @ S2) (client_products d0) \<and>
          client_products (snd (for_each (process_sale sf) (x # xs) d)) =
            add_members (S1 @ S2) (client_products d)"
      using r0 r aa Ok s0 s c0 c by (simp add: add_members_append)
    moreover have "fst (for_each (process_sale sf) (x # xs) d0) =
                   fst (for_each (process_sale sf) (x # xs) d)"
      using r0 r aa Ok f by simp
    ultimately show ?thesis by blast
  qed
qed

lemma sales_load_keeps_tables:
  "categories (snd (SalesLoadStrategy_load sf f d)) = categories d \<and>
   products (snd (SalesLoadStrategy_load sf f d)) = products d \<and>
   contacts (snd (SalesLoadStrategy_load sf f d)) = contacts d \<and>
   category_index (snd (SalesLoadStrategy_load sf f d)) = category_index d \<and>
   product_category_map (snd (SalesLoadStrategy_load sf f d)) = product_category_map d \<and>
   contact_country_map (snd (SalesLoadStrategy_load sf f d)) = contact_country_map d \<and>
   country_code_map (snd (SalesLoadStrategy_load sf f d)) = country_code_map d"
proof (cases f)
  case Unreadable
  then show ?thesis by (simp add: SalesLoadStrategy_load_def stage_failed_def)
next
  case (Readable xs fin)
  obtain a e where r: "for_each (process_sale sf) xs d = (a, e)"
    by (cases "for_each (process_sale sf) xs d")
  from for_each_sale_keeps_tables [of sf xs d] r Readable show ?thesis
    by (simp add: SalesLoadStrategy_load_def stage_failed_def
             split: result.splits stream_end.splits)
qed

lemma sales_load_agree:
  assumes "product_category_map d0 = product_category_map d"
    and "contact_country_map d0 = contact_country_map d"
  shows "fst (SalesLoadStrategy_load sf f d0) = fst (SalesLoadStrategy_load sf f d) \<and>
         (\<exists>S. client_products (snd (SalesLoadStrategy_load sf f d0)) =
                 add_members S (client_products d0) \<and>
               client_products (snd (SalesLoadStrategy_load sf f d)) =
                 add_members S (client_products d))"
proof (cases f)
  case Unreadable
  have "client_products d0 = add_members [] (client_products d0) \<and>
        client_products d = add_members [] (client_products d)"
    by (simp add: add_members_Nil)
  with Unreadable show ?thesis
    by (auto simp: SalesLoadStrategy_load_def stage_failed_def)
next
  case (Readable xs fin)
  obtain a0 e0 where r0: "for_each (process_sale sf) xs d0 = (a0, e0)"
    by (cases "for_each (process_sale sf) xs d0")
  obtain a e where r: "for_each (process_sale sf) xs d = (a, e)"
    by (cases "for_each (process_sale sf) xs d")
  from for_each_sale_agree [OF assms, of sf xs] r0 r obtain S where
    "a0 = a" "client_products e0 = add_members S (client_products d0)"
    "client_products e = add_members S (client_products d)"
    by auto
  with r0 r Readable show ?thesis
    by (auto simp: SalesLoadStrategy_load_def stage_failed_def
             split: result.splits stream_end.splits)
qed


lemma contact_load_effect:
  assumes "fst (ContactLoadStrategy_load f d) = Ok ()"
  shows "\<exists>M C N. \<forall>d0.
           fst (ContactLoadStrategy_load f d0) = Ok () \<and>
           contacts (snd (ContactLoadStrategy_load f d0)) = contacts d0 ++ M \<and>
           contact_country_map (snd (ContactLoadStrategy_load f d0)) = contact_country_map d0 ++ C \<and>
           country_code_map (snd (ContactLoadStrategy_load f d0)) = N ++ country_code_map d0 \<and>
           categories (snd (ContactLoadStrategy_load f d0)) = categories d0 \<and>
           products (snd (ContactLoadStrategy_load f d0)) = products d0 \<and>
           category_index (snd (ContactLoadStrategy_load f d0)) = category_index d0 \<and>
           product_category_map (snd (ContactLoadStrategy_load f d0)) = product_category_map d0 \<and>
           client_products (snd (ContactLoadStrategy_load f d0)) = client_products d0"
proof -
  from contact_load_form [OF assms] obtain M C N where
    g: "\<And>d0. \<exists>lg. ContactLoadStrategy_load f d0 =
           (Ok (), d0\<lparr>contacts := contacts d0 ++ M,
                      contact_country_map := contact_country_map d0 ++ C,
                      country_code_map := N ++ country_code_map d0,
                      app_log := lg\<rparr>)"
    by blast
  have "\<forall>d0.
           fst (ContactLoadStrategy_load f d0) = Ok () \<and>
           contacts (snd (ContactLoadStrategy_load f d0)) = contacts d0 ++ M \<and>
           contact_country_map (snd (ContactLoadStrategy_load f d0)) = contact_country_map d0 ++ C \<and>
           country_code_map (snd (ContactLoadStrategy_load f d0)) = N ++ country_code_map d0 \<and>
           categories (snd (ContactLoadStrategy_load f d0)) = categories d0 \<and>
           products (snd (ContactLoadStrategy_load f d0)) = products d0 \<and>
           category_index (snd (ContactLoadStrategy_load f d0)) = category_index d0 \<and>
           product_category_map (snd (ContactLoadStrategy_load f d0)) = product_category_map d0 \<and>
           client_products (snd (ContactLoadStrategy_load f d0)) = client_products d0"
  proof
    fix d0
    from g [of d0] obtain lg where
      "ContactLoadStrategy_load f d0 =
           (Ok (), d0\<lparr>contacts := contacts d0 ++ M,
                      contact_country_map := contact_country_map d0 ++ C,
                      country_code_map := N ++ country_code_map d0,
                      app_log := lg\<rparr>)"
      by blast
    then show "fst (ContactLoadStrategy_load f d0) = Ok () \<and>
           contacts (snd (ContactLoadStrategy_load f d0)) = contacts d0 ++ M \<and>
           contact_country_map (snd (ContactLoadStrategy_load f d0)) = contact_country_map d0 ++ C \<and>
           country_code_map (snd (ContactLoadStrategy_load f d0)) = N ++ country_code_map d0 \<and>
           categories (snd (ContactLoadStrategy_load f d0)) = categories d0 \<and>
           products (snd (ContactLoadStrategy_load f d0)) = products d0 \<and>
           category_index (snd (ContactLoadStrategy_load f d0)) = category_index d0 \<and>
           product_category_map (snd (ContactLoadStrategy_load f d0)) = product_category_map d0 \<and>
           client_products (snd (ContactLoadStrategy_load f d0)) = client_products d0"
      by simp
  qed
  then show ?thesis by blast
qed

lemma initialize_data_ok:
  fixes sf folder dl
  defines "s0 \<equiv> dl\<lparr>app_log := app_log dl @ [StartingInit]\<rparr>"
  defines "r1 \<equiv> CategoryLoadStrategy_load (categories_json folder) s0"
  defines "r2 \<equiv> ProductLoadStrategy_load (products_json folder) (snd r1)"
  defines "r3 \<equiv> ContactLoadStrategy_load (contacts_json folder) (snd r2)"
  defines "r4 \<equiv> SalesLoadStrategy_load sf (sale_order_lines_json folder) (snd r3)"
  shows "((fst (initialize_data sf folder dl) = Ok ()) =
           (fst r1 = Ok () \<and> fst r2 = Ok () \<and> fst r3 = Ok () \<and> fst r4 = Ok ())) \<and>
         (fst r1 = Ok () \<and> fst r2 = Ok () \<and> fst r3 = Ok () \<and> fst r4 = Ok () \<longrightarrow>
           snd (initialize_data sf folder dl) =
             (snd r4)\<lparr>app_log := app_log (snd r4) @ [DataSummary]\<rparr>)"
proof -
  have w1: "\<exists>c. x = DataLoaderException Category c" if "fst r1 = Raise x" for x
    using that unfolding r1_def
    by (auto simp: category_load_result split: json_file.splits result.splits stream_end.splits)
  have w2: "\<exists>c. x = DataLoaderException Product c" if "fst r2 = Raise x" for x
    using that unfolding r2_def
    by (auto simp: product_load_result split: json_file.splits result.splits stream_end.splits)
  have w3: "\<exists>c. x = DataLoaderException Contact c" if "fst r3 = Raise x" for x
    using that unfolding r3_def
    by (auto simp: contact_load_result split: json_file.splits result.splits stream_end.splits)
  have w4: "\<exists>c. x = DataLoaderException Sales c" if "fst r4 = Raise x" for x
    using that unfolding r4_def
    by (auto simp: sales_load_result split: json_file.splits result.splits stream_end.splits)
  have l1: "load_data sf folder ''categories'' s0 = r1"
    and l2: "load_data sf folder ''products'' (snd r1) = r2"
    and l3: "load_data sf folder ''contacts'' (snd r2) = r3"
    and l4: "load_data sf folder ''sales'' (snd r3) = r4"
    by (simp_all add: load_data_def get_loader_def r1_def r2_def r3_def r4_def)
  obtain a1 d1 where p1: "r1 = (a1, d1)" by (cases r1)
  obtain a2 d2 where p2: "r2 = (a2, d2)" by (cases r2)
  obtain a3 d3 where p3: "r3 = (a3, d3)" by (cases r3)
  obtain a4 d4 where p4: "r4 = (a4, d4)" by (cases r4)
  show ?thesis
    using w1 w2 w3 w4 l1 l2 l3 l4
    unfolding initialize_data_def s0_def [symmetric] p1 p2 p3 p4
    by (cases a1; cases a2; cases a3; cases a4) (auto simp: p1 p2 p3 p4)
qed


text \<open>
  C1, as claimed, fails: on the example folder the first run leaves the total 3.0 for
  category 1 and the second run, on unchanged files, leaves 6.0. The store after two
  runs is not the store after one, also when the log is set aside.
\<close>

theorem second_run_adds_sales_again_counterexample:
  "fst (initialize_data example_float_of_str example_folder DataLoader_init) = Ok () \<and>
   category_sales (snd (initialize_data example_float_of_str example_folder DataLoader_init))
     (KNum 1) = Some (Fin 3) \<and>
   category_sales (snd (initialize_data example_float_of_str example_folder
       (snd (initialize_data example_float_of_str example_folder DataLoader_init))))
     (KNum 1) = Some (Fin 6) \<and>
   (snd (initialize_data example_float_of_str example_folder
       (snd (initialize_data example_float_of_str example_folder DataLoader_init))))
     \<lparr>app_log := []\<rparr>
     \<noteq> (snd (initialize_data example_float_of_str example_folder DataLoader_init))
         \<lparr>app_log := []\<rparr>"
proof -
  let ?one = "snd (initialize_data example_float_of_str example_folder DataLoader_init)"
  let ?two = "snd (initialize_data example_float_of_str example_folder ?one)"
  have ok: "fst (initialize_data example_float_of_str example_folder DataLoader_init) = Ok ()"
    by (simp add: model_defs Let_def)
  have one: "category_sales ?one (KNum 1) = Some (Fin 3)"
    by (simp add: model_defs Let_def)
  have two: "category_sales ?two (KNum 1) = Some (Fin 6)"
    by (simp add: model_defs Let_def)
  have "?two\<lparr>app_log := []\<rparr> \<noteq> ?one\<lparr>app_log := []\<rparr>"
  proof
    assume "?two\<lparr>app_log := []\<rparr> = ?one\<lparr>app_log := []\<rparr>"
    then have "category_sales (?two\<lparr>app_log := []\<rparr>) (KNum 1) =
               category_sales (?one\<lparr>app_log := []\<rparr>) (KNum 1)"
      by (rule arg_cong)
    with one two show False by simp
  qed
  with ok one two show ?thesis by blast
qed

text \<open>
  C1, amended: for every input and every store on which a run of
  \<open>initialize_data\<close> succeeds, a second run on unchanged input files succeeds too, and
  the store after two runs agrees with the store after one run on the reference tables
  and indexes (categories, products, contacts, category index, product-to-category map,
  contact-to-country map, country code index) and on \<^verbatim>\<open>client_products\<close>. The three
  quantity totals are not rebuilt from scratch: the second run adds to the totals of the
  first.
\<close>

theorem second_run_keeps_tables:
  assumes ok: "fst (initialize_data sf folder dl) = Ok ()"
  shows "fst (initialize_data sf folder (snd (initialize_data sf folder dl))) = Ok () \<and>
    categories (snd (initialize_data sf folder (snd (initialize_data sf folder dl)))) =
      categories (snd (initialize_data sf folder dl)) \<and>
    products (snd (initialize_data sf folder (snd (initialize_data sf folder dl)))) =
      products (snd (initialize_data sf folder dl)) \<and>
    contacts (snd (initialize_data sf folder (snd (initialize_data sf folder dl)))) =
      contacts (snd (initialize_data sf folder dl)) \<and>
    category_index (snd (initialize_data sf folder (snd (initialize_data sf folder dl)))) =
      category_index (snd (initialize_data sf folder dl)) \<and>
    product_category_map (snd (initialize_data sf folder (snd (initialize_data sf folder dl)))) =
      product_category_map (snd (initialize_data sf folder dl)) \<and>
    contact_country_map (snd (initialize_data sf folder (snd (initialize_data sf folder dl)))) =
      contact_country_map (snd (initialize_data sf folder dl)) \<and>
    country_code_map (snd (initialize_data sf folder (snd (initialize_data sf folder dl)))) =
      country_code_map (snd (initialize_data sf folder dl)) \<and>
    client_products (snd (initialize_data sf folder (snd (initialize_data sf folder dl)))) =
      client_products (snd (initialize_data sf folder dl))"
proof -
  let ?A = "CategoryLoadStrategy_load (categories_json folder)"
  let ?B = "ProductLoadStrategy_load (products_json folder)"
  let ?C = "ContactLoadStrategy_load (contacts_json folder)"
  let ?S = "SalesLoadStrategy_load sf (sale_order_lines_json folder)"
  define s0 where "s0 = dl\<lparr>app_log := app_log dl @ [StartingInit]\<rparr>"
  define d1 where "d1 = snd (?A s0)"
  define d2 where "d2 = snd (?B d1)"
  define d3 where "d3 = snd (?C d2)"
  define d4 where "d4 = snd (?S d3)"
  define first where "first = snd (initialize_data sf folder dl)"
  from initialize_data_ok [of sf folder dl] ok
  have oks: "fst (?A s0) = Ok ()" "fst (?B d1) = Ok ()" "fst (?C d2) = Ok ()" "fst (?S d3) = Ok ()"
    and fin: "first = d4\<lparr>app_log := app_log d4 @ [DataSummary]\<rparr>"
    unfolding s0_def d1_def d2_def d3_def d4_def first_def by blast+
  from category_load_form [OF oks(1)] obtain M I where
    a: "\<And>d0. ?A d0 =
           (Ok (), d0\<lparr>categories := categories d0 ++ M,
                      category_index := category_index d0 ++ I,
                      app_log := app_log d0 @ [Loaded Category]\<rparr>)"
    by blast
  from product_load_form [OF oks(2)] obtain Mp P where
    b: "\<And>d0. ?B d0 =
           (Ok (), d0\<lparr>products := products d0 ++ Mp,
                      product_category_map := product_category_map d0 ++ P,
                      app_log := app_log d0 @ [Loaded Product]\<rparr>)"
    by blast
  from contact_load_effect [OF oks(3)] obtain Mc C N where
    c: "\<And>d0. fst (?C d0) = Ok () \<and>
           contacts (snd (?C d0)) = contacts d0 ++ Mc \<and>
           contact_country_map (snd (?C d0)) = contact_country_map d0 ++ C \<and>
           country_code_map (snd (?C d0)) = N ++ country_code_map d0 \<and>
           categories (snd (?C d0)) = categories d0 \<and>
           products (snd (?C d0)) = products d0 \<and>
           category_index (snd (?C d0)) = category_index d0 \<and>
           product_category_map (snd (?C d0)) = product_category_map d0 \<and>
           client_products (snd (?C d0)) = client_products d0"
    by blast
  note k = sales_load_keeps_tables [of sf "sale_order_lines_json folder"]
  define t0 where "t0 = first\<lparr>app_log := app_log first @ [StartingInit]\<rparr>"
  define e1 where "e1 = snd (?A t0)"
  define e2 where "e2 = snd (?B e1)"
  define e3 where "e3 = snd (?C e2)"
  define e4 where "e4 = snd (?S e3)"
  note defs = e3_def e2_def e1_def t0_def fin d4_def d3_def d2_def d1_def
  have agree: "product_category_map e3 = product_category_map d3"
    "contact_country_map e3 = contact_country_map d3"
    by (simp_all add: defs a b c k map_add_absorb)
  from sales_load_agree [OF agree, of sf "sale_order_lines_json folder"] obtain S where
    sf: "fst (?S e3) = fst (?S d3)"
    and s1: "client_products (snd (?S e3)) = add_members S (client_products e3)"
    and s2: "client_products (snd (?S d3)) = add_members S (client_products d3)"
    by blast
  have oks2: "fst (?A t0) = Ok ()" "fst (?B e1) = Ok ()" "fst (?C e2) = Ok ()" "fst (?S e3) = Ok ()"
    using oks(4) sf by (simp_all add: a b c e1_def e2_def)
  from initialize_data_ok [of sf folder first] oks2
  have ok2: "fst (initialize_data sf folder first) = Ok ()"
    and fin2: "snd (initialize_data sf folder first) = e4\<lparr>app_log := app_log e4 @ [DataSummary]\<rparr>"
    unfolding t0_def e1_def e2_def e3_def e4_def by blast+
  have cp3: "client_products e3 = client_products d4"
    by (simp add: defs a b c)
  have cp: "client_products e4 = client_products d4"
    unfolding e4_def s1 cp3 unfolding d4_def s2 by (rule add_members_twice)
  have tabs: "categories e4 = categories d4" "products e4 = products d4"
    "contacts e4 = contacts d4" "category_index e4 = category_index d4"
    "product_category_map e4 = product_category_map d4"
    "contact_country_map e4 = contact_country_map d4"
    "country_code_map e4 = country_code_map d4"
    by (simp_all add: e4_def defs a b c k map_add_absorb map_add_self)
  from ok2 fin2 cp tabs show ?thesis
    unfolding first_def [symmetric] by (simp add: fin)
qed

text \<open>The theorem on the example folder, from a fresh \<^verbatim>\<open>DataLoader\<close>.\<close>

theorem second_run_keeps_tables_witness:
  "fst (initialize_data example_float_of_str example_folder
          (snd (initialize_data example_float_of_str example_folder DataLoader_init))) = Ok () \<and>
   country_code_map (snd (initialize_data example_float_of_str example_folder
          (snd (initialize_data example_float_of_str example_folder DataLoader_init)))) =
     country_code_map (snd (initialize_data example_float_of_str example_folder DataLoader_init)) \<and>
   client_products (snd (initialize_data example_float_of_str example_folder
          (snd (initialize_data example_float_of_str example_folder DataLoader_init)))) =
     client_products (snd (initialize_data example_float_of_str example_folder DataLoader_init)) \<and>
   client_products (snd (initialize_data example_float_of_str example_folder DataLoader_init))
     (KNum 5) = Some {KNum 10}"
proof -
  have ok: "fst (initialize_data example_float_of_str example_folder DataLoader_init) = Ok ()"
    by (simp add: model_defs Let_def)
  have v: "client_products (snd (initialize_data example_float_of_str example_folder
             DataLoader_init)) (KNum 5) = Some {KNum 10}"
    by (simp add: model_defs Let_def)
  from second_run_keeps_tables [OF ok] v show ?thesis by simp
qed

end
